theory Spec2Isabelle
  imports Complex_Main "HOL-Library.AList"
begin

section \<open>Python values and exceptions\<close>

text \<open>
  The values that \<^verbatim>\<open>json.loads\<close> hands to the gateway code. Objects are Python
  dictionaries: an association list in insertion order. Numbers are the integers; the
  fractional numbers of JSON are outside this development.
\<close>

datatype json =
    JNull
  | JBool bool
  | JNum int
  | JStr string
  | JArr "json list"
  | JObj "(string \<times> json) list"

text \<open>
  The exceptions the modelled code can raise. \<open>GuildedException e\<close> is the library's
  own exception wrapped around \<open>e\<close>; \<open>HTTPError s\<close> is what
  \<^verbatim>\<open>error_mapping.get(status, HTTPException)(response)\<close> builds for status \<open>s\<close>;
  \<open>OutsideFragment\<close> is no Python exception: it marks an input that this development
  does not cover (JSON text outside the reference reader's fragment, a quotient that is
  no exact double, an attribute name reserved by Python).
\<close>

datatype pyerror =
    JSONDecodeError
  | KeyError string
  | IndexError
  | TypeError
  | AttributeError string
  | UnboundLocalError string
  | HTTPError int
  | OverflowError
  | ZeroDivisionError
  | GuildedException pyerror
  | OutsideFragment

text \<open>Python truthiness of a decoded JSON value (\<^verbatim>\<open>if x:\<close>, \<^verbatim>\<open>not x\<close>).\<close>

fun truthy :: "json \<Rightarrow> bool" where
  "truthy JNull = False"
| "truthy (JBool b) = b"
| "truthy (JNum n) = (n \<noteq> 0)"
| "truthy (JStr s) = (s \<noteq> [])"
| "truthy (JArr xs) = (xs \<noteq> [])"
| "truthy (JObj kv) = (kv \<noteq> [])"

section \<open>Frame decoding (gateway.py)\<close>

text \<open>
  \<^verbatim>\<open>char.isdigit()\<close> on the characters of the wire text. The development covers ASCII
  text, where the digits are \<^verbatim>\<open>0\<close> to \<^verbatim>\<open>9\<close>.
\<close>

definition isdigit :: "char \<Rightarrow> bool" where
  "isdigit c = (48 \<le> (of_char c :: nat) \<and> (of_char c :: nat) \<le> 57)"

text \<open>\<^verbatim>\<open>payload.isdigit()\<close>: a non-empty string of digits only.\<close>

definition str_isdigit :: "string \<Rightarrow> bool" where
  "str_isdigit s = (s \<noteq> [] \<and> list_all isdigit s)"

text \<open>\<^verbatim>\<open>payload.replace(char, "", 1)\<close>: the first occurrence of the character is removed.\<close>

fun replace_first :: "char \<Rightarrow> string \<Rightarrow> string" where
  "replace_first c [] = []"
| "replace_first c (x # xs) = (if x = c then xs else x # replace_first c xs)"

text \<open>
  The loop of \<^verbatim>\<open>_full_event_parse\<close>. It iterates over the characters of the string
  it was given (first argument) while it rebinds \<^verbatim>\<open>payload\<close> (second argument), and
  leaves at the first character that is no digit.
\<close>

fun strip_loop :: "string \<Rightarrow> string \<Rightarrow> string" where
  "strip_loop [] payload = payload"
| "strip_loop (c # cs) payload =
     (if isdigit c then strip_loop cs (replace_first c payload) else payload)"

definition strip_type_code :: "string \<Rightarrow> string" where
  "strip_type_code payload = strip_loop payload payload"

text \<open>
  \<^verbatim>\<open>_pretty_event\<close>. A list is replaced by its second element (IndexError when there is
  none); \<^verbatim>\<open>.get\<close> exists on dictionaries only; a dictionary with a truthy
  \<^verbatim>\<open>"type"\<close> becomes \<^verbatim>\<open>{"type": ..., "data": <the other keys>}\<close> and any other
  dictionary is returned as it is.
\<close>

definition second_of_list :: "json \<Rightarrow> pyerror + json" where
  "second_of_list payload =
     (case payload of
        JArr xs \<Rightarrow> (case xs of _ # y # _ \<Rightarrow> Inr y | _ \<Rightarrow> Inl IndexError)
      | _ \<Rightarrow> Inr payload)"

definition pretty_event :: "json \<Rightarrow> pyerror + json" where
  "pretty_event payload =
     (case second_of_list payload of
        Inl e \<Rightarrow> Inl e
      | Inr p \<Rightarrow>
          (case p of
             JObj kv \<Rightarrow>
               (case map_of kv ''type'' of
                  None \<Rightarrow> Inr p
                | Some t \<Rightarrow>
                    if truthy t
                    then Inr (JObj [(''type'', t), (''data'', JObj (AList.delete ''type'' kv))])
                    else Inr p)
           | _ \<Rightarrow> Inl (AttributeError ''get'')))"

text \<open>
  \<^verbatim>\<open>_full_event_parse\<close>. \<^verbatim>\<open>json.loads\<close> belongs to the Python standard library; it is
  the parameter \<open>loads\<close>.
\<close>

definition full_event_parse :: "(string \<Rightarrow> pyerror + json) \<Rightarrow> string \<Rightarrow> pyerror + json" where
  "full_event_parse loads payload =
     (case loads (strip_type_code payload) of
        Inl e \<Rightarrow> Inl e
      | Inr data \<Rightarrow> pretty_event data)"

section \<open>The JSON text format (Python standard library)\<close>

text \<open>
  \<^verbatim>\<open>json.dumps\<close> with its default separators \<^verbatim>\<open>", "\<close> and \<^verbatim>\<open>": "\<close> and with
  \<^verbatim>\<open>ensure_ascii\<close>: what \<^verbatim>\<open>trigger_typing\<close> calls to build an outbound frame.
\<close>

function nat_repr :: "nat \<Rightarrow> string" where
  "nat_repr n =
     (if n < 10 then [char_of (48 + n)]
      else nat_repr (n div 10) @ [char_of (48 + n mod 10)])"
  by pat_completeness auto
termination
  by (relation "measure (\<lambda>n. n)") auto

definition int_repr :: "int \<Rightarrow> string" where
  "int_repr i = (if i < 0 then CHR ''-'' # nat_repr (nat (- i)) else nat_repr (nat i))"

definition hex_digit :: "nat \<Rightarrow> char" where
  "hex_digit d = (if d < 10 then char_of (48 + d) else char_of (87 + d))"

definition escape_char :: "char \<Rightarrow> string" where
  "escape_char c =
     (if c = CHR 0x22 then [CHR 0x5C, CHR 0x22]
      else if c = CHR 0x5C then [CHR 0x5C, CHR 0x5C]
      else if c = CHR 0x0A then [CHR 0x5C, CHR ''n'']
      else if c = CHR 0x0D then [CHR 0x5C, CHR ''r'']
      else if c = CHR 0x09 then [CHR 0x5C, CHR ''t'']
      else if c = CHR 0x08 then [CHR 0x5C, CHR ''b'']
      else if c = CHR 0x0C then [CHR 0x5C, CHR ''f'']
      else if 32 \<le> (of_char c :: nat) \<and> (of_char c :: nat) \<le> 126 then [c]
      else [CHR 0x5C, CHR ''u'', CHR ''0'', CHR ''0'',
            hex_digit (of_char c div 16), hex_digit (of_char c mod 16)])"

definition dumps_str :: "string \<Rightarrow> string" where
  "dumps_str s = CHR 0x22 # concat (map escape_char s) @ [CHR 0x22]"

fun join_with :: "string \<Rightarrow> string list \<Rightarrow> string" where
  "join_with sep [] = []"
| "join_with sep [x] = x"
| "join_with sep (x # y # ys) = x @ sep @ join_with sep (y # ys)"

fun json_dumps :: "json \<Rightarrow> string" where
  "json_dumps JNull = ''null''"
| "json_dumps (JBool b) = (if b then ''true'' else ''false'')"
| "json_dumps (JNum n) = int_repr n"
| "json_dumps (JStr s) = dumps_str s"
| "json_dumps (JArr xs) = ''['' @ join_with '', '' (map json_dumps xs) @ '']''"
| "json_dumps (JObj kv) =
     ''{'' @ join_with '', '' (map (\<lambda>p. dumps_str (fst p) @ '': '' @ json_dumps (snd p)) kv) @ ''}''"

text \<open>
  A reference reader for \<^verbatim>\<open>json.loads\<close>, used where a frame is decoded from its text.
  It follows the standard library's scanner on the fragment with integer numbers and
  without \<^verbatim>\<open>\u\<close> escapes, and answers \<open>OutsideFragment\<close> elsewhere. The first
  argument of the three mutually recursive readers bounds the number of nested calls.
\<close>

definition is_ws :: "char \<Rightarrow> bool" where
  "is_ws c = (c = CHR 0x20 \<or> c = CHR 0x09 \<or> c = CHR 0x0A \<or> c = CHR 0x0D)"

definition skip_ws :: "string \<Rightarrow> string" where
  "skip_ws s = dropWhile is_ws s"

definition digits_value :: "string \<Rightarrow> nat" where
  "digits_value ds = foldl (\<lambda>a c. 10 * a + (of_char c - 48)) 0 ds"

definition starts_with :: "string \<Rightarrow> string \<Rightarrow> bool" where
  "starts_with p s = (take (length p) s = p)"

definition parse_number :: "string \<Rightarrow> pyerror + (json \<times> string)" where
  "parse_number s =
     (let neg = starts_with ''-'' s;
          s1 = (if neg then drop 1 s else s);
          ds = takeWhile isdigit s1;
          ip = (if starts_with ''0'' ds then ''0'' else ds);
          rest = drop (length ip) s1
      in if ip = [] then
           (if starts_with ''Infinity'' s1 then Inl OutsideFragment else Inl JSONDecodeError)
         else if starts_with ''.'' rest \<or> starts_with ''e'' rest \<or> starts_with ''E'' rest then
           Inl OutsideFragment
         else Inr (JNum (if neg then - int (digits_value ip) else int (digits_value ip)), rest))"

definition unescape :: "char \<Rightarrow> pyerror + char" where
  "unescape e =
     (if e = CHR 0x22 \<or> e = CHR 0x5C \<or> e = CHR ''/'' then Inr e
      else if e = CHR ''b'' then Inr (CHR 0x08)
      else if e = CHR ''f'' then Inr (CHR 0x0C)
      else if e = CHR ''n'' then Inr (CHR 0x0A)
      else if e = CHR ''r'' then Inr (CHR 0x0D)
      else if e = CHR ''t'' then Inr (CHR 0x09)
      else if e = CHR ''u'' then Inl OutsideFragment
      else Inl JSONDecodeError)"

fun parse_chars :: "string \<Rightarrow> pyerror + (string \<times> string)" where
  "parse_chars [] = Inl JSONDecodeError"
| "parse_chars [c] = (if c = CHR 0x22 then Inr ([], []) else Inl JSONDecodeError)"
| "parse_chars (c # e # s) =
     (if c = CHR 0x22 then Inr ([], e # s)
      else if c = CHR 0x5C then
        (case unescape e of
           Inl err \<Rightarrow> Inl err
         | Inr ch \<Rightarrow>
             (case parse_chars s of
                Inl err \<Rightarrow> Inl err
              | Inr (str, rest) \<Rightarrow> Inr (ch # str, rest)))
      else if (of_char c :: nat) < 32 then Inl JSONDecodeError
      else
        (case parse_chars (e # s) of
           Inl err \<Rightarrow> Inl err
         | Inr (str, rest) \<Rightarrow> Inr (c # str, rest)))"

fun parse_value :: "nat \<Rightarrow> string \<Rightarrow> pyerror + (json \<times> string)"
  and parse_elems :: "nat \<Rightarrow> json list \<Rightarrow> string \<Rightarrow> pyerror + (json \<times> string)"
  and parse_members :: "nat \<Rightarrow> (string \<times> json) list \<Rightarrow> string \<Rightarrow> pyerror + (json \<times> string)"
where
  "parse_value 0 s = Inl OutsideFragment"
| "parse_value (Suc n) s =
     (if starts_with [CHR 0x22] s then
        (case parse_chars (drop 1 s) of
           Inl e \<Rightarrow> Inl e
         | Inr (str, rest) \<Rightarrow> Inr (JStr str, rest))
      else if starts_with ''{'' s then
        (if starts_with ''}'' (skip_ws (drop 1 s)) then Inr (JObj [], drop 1 (skip_ws (drop 1 s)))
         else parse_members n [] (skip_ws (drop 1 s)))
      else if starts_with ''['' s then
        (if starts_with '']'' (skip_ws (drop 1 s)) then Inr (JArr [], drop 1 (skip_ws (drop 1 s)))
         else parse_elems n [] (skip_ws (drop 1 s)))
      else if starts_with ''null'' s then Inr (JNull, drop 4 s)
      else if starts_with ''true'' s then Inr (JBool True, drop 4 s)
      else if starts_with ''false'' s then Inr (JBool False, drop 5 s)
      else if starts_with ''NaN'' s \<or> starts_with ''Infinity'' s then Inl OutsideFragment
      else parse_number s)"
| "parse_elems 0 acc s = Inl OutsideFragment"
| "parse_elems (Suc n) acc s =
     (case parse_value n s of
        Inl e \<Rightarrow> Inl e
      | Inr (v, rest) \<Rightarrow>
          (if starts_with '','' (skip_ws rest) then
             parse_elems n (acc @ [v]) (skip_ws (drop 1 (skip_ws rest)))
           else if starts_with '']'' (skip_ws rest) then
             Inr (JArr (acc @ [v]), drop 1 (skip_ws rest))
           else Inl JSONDecodeError))"
| "parse_members 0 acc s = Inl OutsideFragment"
| "parse_members (Suc n) acc s =
     (if starts_with [CHR 0x22] s then
        (case parse_chars (drop 1 s) of
           Inl e \<Rightarrow> Inl e
         | Inr (k, r1) \<Rightarrow>
             (if starts_with '':'' (skip_ws r1) then
                (case parse_value n (skip_ws (drop 1 (skip_ws r1))) of
                   Inl e \<Rightarrow> Inl e
                 | Inr (v, r2) \<Rightarrow>
                     (if starts_with '','' (skip_ws r2) then
                        parse_members n (AList.update k v acc) (skip_ws (drop 1 (skip_ws r2)))
                      else if starts_with ''}'' (skip_ws r2) then
                        Inr (JObj (AList.update k v acc), drop 1 (skip_ws r2))
                      else Inl JSONDecodeError))
              else Inl JSONDecodeError))
      else Inl JSONDecodeError)"

definition json_loads :: "string \<Rightarrow> pyerror + json" where
  "json_loads s =
     (case parse_value (Suc (length s + length s)) (skip_ws s) of
        Inl e \<Rightarrow> Inl e
      | Inr (v, rest) \<Rightarrow> if skip_ws rest = [] then Inr v else Inl JSONDecodeError)"

section \<open>Outbound frames (http.py)\<close>

text \<open>
  The frame text of \<^verbatim>\<open>trigger_typing\<close>: \<^verbatim>\<open>f"42{json.dumps(payload)}"\<close> with
  \<^verbatim>\<open>payload = [event_name, data]\<close>. \<open>encode\<close> is that expression for any event
  name; \<^verbatim>\<open>trigger_typing\<close> is its one caller.
\<close>

definition encode :: "string \<Rightarrow> json \<Rightarrow> string" where
  "encode event_name data = ''42'' @ json_dumps (JArr [JStr event_name, data])"

definition trigger_typing :: "json \<Rightarrow> string" where
  "trigger_typing channel_id = encode ''ChatChannelTyping'' (JObj [(''channelId'', channel_id)])"

section \<open>Objects, dictionaries and the object cache (http.py)\<close>

text \<open>
  Member and team objects are mutable and shared between the cache and the handlers, so
  they live in a store: an address holds the attributes of one object. A value is a
  decoded JSON value or a reference to an object. The classes \<^verbatim>\<open>Member\<close> and
  \<^verbatim>\<open>Team\<close> are not among the sources: an object is the dictionary of its
  attributes, and any attribute can be assigned.
\<close>

type_synonym addr = nat

datatype pyval = J json | Ref addr

type_synonym pyobj = "(string \<times> pyval) list"

type_synonym store = "(addr \<times> pyobj) list"

definition deref :: "store \<Rightarrow> addr \<Rightarrow> pyobj" where
  "deref h a = (case map_of h a of None \<Rightarrow> [] | Some obj \<Rightarrow> obj)"

text \<open>
  \<^verbatim>\<open>obj.name\<close> and \<^verbatim>\<open>setattr(obj, name, v)\<close>. None of the attribute names the
  handlers read is an attribute of a decoded JSON value (or of \<^verbatim>\<open>None\<close>).
\<close>

definition getattr :: "store \<Rightarrow> pyval \<Rightarrow> string \<Rightarrow> pyerror + pyval" where
  "getattr h v name =
     (case v of
        J _ \<Rightarrow> Inl (AttributeError name)
      | Ref a \<Rightarrow>
          (case map_of (deref h a) name of
             None \<Rightarrow> Inl (AttributeError name)
           | Some x \<Rightarrow> Inr x))"

definition setattr :: "store \<Rightarrow> addr \<Rightarrow> string \<Rightarrow> pyval \<Rightarrow> store" where
  "setattr h a name v = AList.update a (AList.update name v (deref h a)) h"

text \<open>
  Dictionary keys. Lists and dictionaries are unhashable (TypeError); \<^verbatim>\<open>True\<close> and
  \<^verbatim>\<open>False\<close> are the keys \<^verbatim>\<open>1\<close> and \<^verbatim>\<open>0\<close>; an object is hashed by identity.
\<close>

definition dict_key :: "pyval \<Rightarrow> pyerror + pyval" where
  "dict_key k =
     (case k of
        J (JArr _) \<Rightarrow> Inl TypeError
      | J (JObj _) \<Rightarrow> Inl TypeError
      | J (JBool b) \<Rightarrow> Inr (J (JNum (if b then 1 else 0)))
      | _ \<Rightarrow> Inr k)"

definition dict_get :: "(pyval \<times> 'v) list \<Rightarrow> pyval \<Rightarrow> pyerror + 'v option" where
  "dict_get d k = (case dict_key k of Inl e \<Rightarrow> Inl e | Inr k' \<Rightarrow> Inr (map_of d k'))"

definition dict_set :: "(pyval \<times> 'v) list \<Rightarrow> pyval \<Rightarrow> 'v \<Rightarrow> pyerror + (pyval \<times> 'v) list" where
  "dict_set d k v = (case dict_key k of Inl e \<Rightarrow> Inl e | Inr k' \<Rightarrow> Inr (AList.update k' v d))"

text \<open>\<^verbatim>\<open>data[key]\<close>, \<^verbatim>\<open>data.get(key)\<close>, \<^verbatim>\<open>xs[0]\<close>, \<^verbatim>\<open>for x in xs\<close> and
  \<^verbatim>\<open>d.items()\<close> on decoded JSON, for a string \<open>key\<close>.\<close>

definition subscript :: "json \<Rightarrow> string \<Rightarrow> pyerror + json" where
  "subscript data key =
     (case data of
        JObj kv \<Rightarrow> (case map_of kv key of None \<Rightarrow> Inl (KeyError key) | Some v \<Rightarrow> Inr v)
      | _ \<Rightarrow> Inl TypeError)"

definition json_get :: "json \<Rightarrow> string \<Rightarrow> pyerror + json" where
  "json_get data key =
     (case data of
        JObj kv \<Rightarrow> (case map_of kv key of None \<Rightarrow> Inr JNull | Some v \<Rightarrow> Inr v)
      | _ \<Rightarrow> Inl (AttributeError ''get''))"

definition index0 :: "json \<Rightarrow> pyerror + json" where
  "index0 xs =
     (case xs of
        JArr ys \<Rightarrow> (case ys of [] \<Rightarrow> Inl IndexError | y # _ \<Rightarrow> Inr y)
      | JStr s \<Rightarrow> (case s of [] \<Rightarrow> Inl IndexError | c # _ \<Rightarrow> Inr (JStr [c]))
      | JObj kv \<Rightarrow> Inl (KeyError ''0'')
      | _ \<Rightarrow> Inl TypeError)"

definition iterate :: "json \<Rightarrow> pyerror + json list" where
  "iterate xs =
     (case xs of
        JArr ys \<Rightarrow> Inr ys
      | JStr s \<Rightarrow> Inr (map (\<lambda>c. JStr [c]) s)
      | JObj kv \<Rightarrow> Inr (map (\<lambda>p. JStr (fst p)) kv)
      | _ \<Rightarrow> Inl TypeError)"

definition items :: "json \<Rightarrow> pyerror + (string \<times> json) list" where
  "items d = (case d of JObj kv \<Rightarrow> Inr kv | _ \<Rightarrow> Inl (AttributeError ''items''))"

text \<open>
  The heartbeat thread object. \<^verbatim>\<open>Heartbeater.__init__\<close> sets \<^verbatim>\<open>ws\<close>,
  \<^verbatim>\<open>interval\<close>, three message templates, \<^verbatim>\<open>_stop_ev\<close> and \<^verbatim>\<open>latency\<close>. It does
  not set \<^verbatim>\<open>_main_thread_id\<close>, which \<^verbatim>\<open>run\<close> reads: the field
  \<open>hb_main_thread_id\<close> is \<open>None\<close> while the attribute does not exist.
\<close>

datatype pyfloat = Finite real | Infinity

record heartbeater =
  hb_interval :: real
  hb_stop_ev :: bool
  hb_latency :: pyfloat
  hb_main_thread_id :: "nat option"

definition Heartbeater_init :: "real \<Rightarrow> heartbeater" where
  "Heartbeater_init interval =
     \<lparr> hb_interval = interval, hb_stop_ev = False, hb_latency = Infinity,
       hb_main_thread_id = None \<rparr>"

text \<open>
  The state of one connection: the fields of \<^verbatim>\<open>GuildedWebSocket\<close> the handlers write,
  the caches of \<^verbatim>\<open>HTTPClient\<close>, and the store of the cached objects.
\<close>

record gateway =
  sid :: "json option"
  upgrades :: json
  ws_heartbeater :: "heartbeater option"
  teams :: "(pyval \<times> addr) list"
  team_members :: "(pyval \<times> (pyval \<times> addr) list) list"
  messages :: "(pyval \<times> addr) list"
  max_messages :: int
  heap :: store

text \<open>\<^verbatim>\<open>GuildedWebSocket.__init__\<close> with \<^verbatim>\<open>HTTPClient.__init__\<close>.\<close>

definition new_gateway :: "int \<Rightarrow> gateway" where
  "new_gateway max_msgs =
     \<lparr> sid = None, upgrades = JArr [], ws_heartbeater = None, teams = [], team_members = [],
       messages = [], max_messages = max_msgs, heap = [] \<rparr>"

text \<open>The property \<^verbatim>\<open>GuildedWebSocket.latency\<close>.\<close>

definition latency :: "gateway \<Rightarrow> pyfloat" where
  "latency ws = (case ws_heartbeater ws of None \<Rightarrow> Infinity | Some h \<Rightarrow> hb_latency h)"

text \<open>\<^verbatim>\<open>HTTPClient._get_team\<close> and \<^verbatim>\<open>HTTPClient._get_team_member\<close>.\<close>

definition get_team_http :: "gateway \<Rightarrow> pyval \<Rightarrow> pyerror + addr option" where
  "get_team_http st team_id = dict_get (teams st) team_id"

definition get_team_member_http :: "gateway \<Rightarrow> pyval \<Rightarrow> pyval \<Rightarrow> pyerror + addr option" where
  "get_team_member_http st team_id member_id =
     (case dict_get (team_members st) team_id of
        Inl e \<Rightarrow> Inl e
      | Inr None \<Rightarrow> dict_get [] member_id
      | Inr (Some ms) \<Rightarrow> dict_get ms member_id)"

text \<open>
  \<^verbatim>\<open>HTTPClient.add_to_member_cache\<close>. The first statement stores the team's member
  dictionary (a new empty one if there was none); the second reads \<^verbatim>\<open>member.team.id\<close>
  and \<^verbatim>\<open>member.id\<close> and stores the member. An exception in the second statement
  leaves the effect of the first.
\<close>

definition member_team_id :: "store \<Rightarrow> addr \<Rightarrow> pyerror + pyval" where
  "member_team_id h m =
     (case getattr h (Ref m) ''team'' of
        Inl e \<Rightarrow> Inl e
      | Inr t \<Rightarrow> getattr h t ''id'')"

definition add_to_member_cache :: "gateway \<Rightarrow> addr \<Rightarrow> gateway \<times> pyerror option" where
  "add_to_member_cache st m =
     (case member_team_id (heap st) m of
        Inl e \<Rightarrow> (st, Some e)
      | Inr tid \<Rightarrow>
          (case dict_get (team_members st) tid of
             Inl e \<Rightarrow> (st, Some e)
           | Inr old \<Rightarrow>
               (let ms = (case old of None \<Rightarrow> [] | Some d \<Rightarrow> d) in
                case dict_set (team_members st) tid ms of
                  Inl e \<Rightarrow> (st, Some e)
                | Inr tm1 \<Rightarrow>
                    (let st1 = st\<lparr>team_members := tm1\<rparr> in
                     case getattr (heap st) (Ref m) ''id'' of
                       Inl e \<Rightarrow> (st1, Some e)
                     | Inr mid \<Rightarrow>
                         (case dict_set ms mid m of
                            Inl e \<Rightarrow> (st1, Some e)
                          | Inr ms' \<Rightarrow>
                              (case dict_set tm1 tid ms' of
                                 Inl e \<Rightarrow> (st1, Some e)
                               | Inr tm2 \<Rightarrow> (st\<lparr>team_members := tm2\<rparr>, None)))))))"

text \<open>
  \<^verbatim>\<open>HTTPClient.add_to_message_cache\<close> on the message dictionary, for a message whose
  \<^verbatim>\<open>id\<close> is \<open>k\<close>. The loop deletes the first key of the dictionary while it holds
  more than \<^verbatim>\<open>_max_messages\<close> entries; \<^verbatim>\<open>list(keys)[0]\<close> on an empty dictionary is an
  IndexError.
\<close>

function evict :: "int \<Rightarrow> ('k \<times> 'm) list \<Rightarrow> pyerror + ('k \<times> 'm) list" where
  "evict max_msgs ms =
     (if int (length ms) > max_msgs then
        (case ms of
           [] \<Rightarrow> Inl IndexError
         | p # rest \<Rightarrow> evict max_msgs (AList.delete (fst p) ms))
      else Inr ms)"
  by pat_completeness auto
termination
proof (relation "measure (\<lambda>(n, ms). length ms)")
  show "wf (measure (\<lambda>(n :: int, ms :: ('k \<times> 'm) list). length ms))"
    by simp
next
  fix max_msgs :: int and ms :: "('k \<times> 'm) list" and p rest
  assume ms: "ms = p # rest"
  have "length (AList.delete (fst p) rest) \<le> length rest"
    by (simp add: AList.delete_eq)
  moreover have "AList.delete (fst p) ms = AList.delete (fst p) rest"
    using ms by (cases p) simp
  ultimately show "((max_msgs, AList.delete (fst p) ms), (max_msgs, ms))
      \<in> measure (\<lambda>(n, ms). length ms)"
    using ms by simp
qed

declare evict.simps [simp del]

definition add_to_message_cache :: "int \<Rightarrow> ('k \<times> 'm) list \<Rightarrow> 'k \<Rightarrow> 'm \<Rightarrow> pyerror + ('k \<times> 'm) list" where
  "add_to_message_cache max_msgs ms k m = evict max_msgs (AList.update k m ms)"

text \<open>The messages \<open>new\<close> inserted one after the other, first to last.\<close>

fun add_all :: "int \<Rightarrow> ('k \<times> 'm) list \<Rightarrow> ('k \<times> 'm) list \<Rightarrow> pyerror + ('k \<times> 'm) list" where
  "add_all max_msgs ms [] = Inr ms"
| "add_all max_msgs ms (p # later) =
     (case add_to_message_cache max_msgs ms (fst p) (snd p) of
        Inl e \<Rightarrow> Inl e
      | Inr ms' \<Rightarrow> add_all max_msgs ms' later)"

section \<open>Event handlers (gateway.py)\<close>

text \<open>
  What a handler does to the outside: \<^verbatim>\<open>client.dispatch(name, *args)\<close>,
  \<^verbatim>\<open>socket.send_str(text)\<close> and the start of the heartbeat thread. A cached object is
  passed by reference; \<open>ARef a obj\<close> records the address together with the attributes
  the object has at the moment of the call.
\<close>

text \<open>
  Modelled from the spec: the constructor \<^verbatim>\<open>Member(state=..., data=data)\<close>, whose file
  user.py is not among the sources. The spec has the handler "construct a raw-update
  object from the payload": \<open>ARaw data\<close> is that new object, given by its payload, and
  its construction does not fail.
\<close>

datatype arg = AStr string | AJson json | ARaw json | ARef addr pyobj | AErr pyerror

datatype effect = Dispatch string "arg list" | Send string | HeartbeaterStart heartbeater

text \<open>
  A handler returns the state it leaves, what it did, and the exception that ended it
  (\<open>None\<close> when it returned).
\<close>

type_synonym outcome = "gateway \<times> effect list \<times> pyerror option"

text \<open>
  Modelled from the spec: \<^verbatim>\<open>Client.get_team\<close> and \<^verbatim>\<open>Team.get_member\<close>, whose files
  client.py and team.py are not among the sources. The spec has the handlers "require
  both the team and the member to already be cached"; the two calls are the lookups
  \<^verbatim>\<open>_get_team\<close> and \<^verbatim>\<open>_get_team_member\<close> of the object cache.
\<close>

definition get_team :: "gateway \<Rightarrow> json \<Rightarrow> pyerror + addr option" where
  "get_team st team_id = get_team_http st (J team_id)"

definition get_member :: "gateway \<Rightarrow> addr \<Rightarrow> pyval \<Rightarrow> pyerror + addr option" where
  "get_member st team member_id =
     (case getattr (heap st) (Ref team) ''id'' of
        Inl e \<Rightarrow> Inl e
      | Inr tid \<Rightarrow> get_team_member_http st tid member_id)"

text \<open>
  \<^verbatim>\<open>after.<name> = v\<close> followed by \<^verbatim>\<open>self._state.add_to_member_cache(after)\<close>, for
  the result \<open>after\<close> of a cache lookup (an assignment to an attribute of \<^verbatim>\<open>None\<close>
  is an AttributeError).
\<close>

definition assign_and_cache :: "gateway \<Rightarrow> addr option \<Rightarrow> string \<Rightarrow> json \<Rightarrow> gateway \<times> pyerror option" where
  "assign_and_cache st after name v =
     (case after of
        None \<Rightarrow> (st, Some (AttributeError name))
      | Some a \<Rightarrow> add_to_member_cache (st\<lparr>heap := setattr (heap st) a name (J v)\<rparr>) a)"

definition member_update :: "store \<Rightarrow> addr \<Rightarrow> addr \<Rightarrow> effect" where
  "member_update h before after =
     Dispatch ''member_update'' [ARef before (deref h before), ARef after (deref h after)]"

definition TeamXpSet :: "gateway \<Rightarrow> json \<Rightarrow> outcome" where
  "TeamXpSet st data =
     (case json_get data ''amount'' of
        Inl e \<Rightarrow> (st, [], Some e)
      | Inr amount \<Rightarrow>
     if \<not> truthy amount then (st, [], None) else
     (case subscript data ''teamId'' of
        Inl e \<Rightarrow> (st, [], Some e)
      | Inr team_id \<Rightarrow>
     (case get_team st team_id of
        Inl e \<Rightarrow> (st, [], Some e)
      | Inr None \<Rightarrow> (st, [], None)
      | Inr (Some team) \<Rightarrow>
     (case subscript data ''userIds'' of
        Inl e \<Rightarrow> (st, [], Some e)
      | Inr user_ids \<Rightarrow>
     (case index0 user_ids of
        Inl e \<Rightarrow> (st, [], Some e)
      | Inr user_id \<Rightarrow>
     (case get_member st team (J user_id) of
        Inl e \<Rightarrow> (st, [], Some e)
      | Inr None \<Rightarrow> (st, [], None)
      | Inr (Some before) \<Rightarrow>
     (case getattr (heap st) (Ref before) ''id'' of
        Inl e \<Rightarrow> (st, [], Some e)
      | Inr before_id \<Rightarrow>
     (case get_member st team before_id of
        Inl e \<Rightarrow> (st, [], Some e)
      | Inr after \<Rightarrow>
     (case subscript data ''amount'' of
        Inl e \<Rightarrow> (st, [], Some e)
      | Inr xp \<Rightarrow>
     (case assign_and_cache st after ''xp'' xp of
        (st', Some e) \<Rightarrow> (st', [], Some e)
      | (st', None) \<Rightarrow>
          (case after of
             None \<Rightarrow> (st', [], Some (AttributeError ''xp''))
           | Some a \<Rightarrow> (st', [member_update (heap st') before a], None))))))))))))"

text \<open>
  The loop of \<^verbatim>\<open>TeamMemberUpdated\<close> over \<^verbatim>\<open>data["userInfo"].items()\<close>. The last
  argument is the local variable \<^verbatim>\<open>after\<close>: \<open>None\<close> while it is unbound.
  \<^verbatim>\<open>setattr\<close> with a name that starts with two underscores (\<^verbatim>\<open>__class__\<close>,
  \<^verbatim>\<open>__dict__\<close>, ...) is no plain assignment of an attribute and is not covered.
\<close>

fun apply_user_info ::
  "gateway \<Rightarrow> addr \<Rightarrow> json \<Rightarrow> (string \<times> json) list \<Rightarrow> addr option \<Rightarrow> gateway \<times> (pyerror + addr option)" where
  "apply_user_info st team data [] after = (st, Inr after)"
| "apply_user_info st team data (kv # rest) after =
     (case subscript data ''userId'' of
        Inl e \<Rightarrow> (st, Inl e)
      | Inr user_id \<Rightarrow>
     (case get_member st team (J user_id) of
        Inl e \<Rightarrow> (st, Inl e)
      | Inr found \<Rightarrow>
     if starts_with ''__'' (fst kv) then (st, Inl OutsideFragment) else
     (case assign_and_cache st found (fst kv) (snd kv) of
        (st', Some e) \<Rightarrow> (st', Inl e)
      | (st', None) \<Rightarrow> apply_user_info st' team data rest found)))"

definition TeamMemberUpdated :: "gateway \<Rightarrow> json \<Rightarrow> outcome" where
  "TeamMemberUpdated st data =
     (let raw = [Dispatch ''raw_member_update'' [ARaw data]] in
      case subscript data ''teamId'' of
        Inl e \<Rightarrow> (st, raw, Some e)
      | Inr team_id \<Rightarrow>
     (case get_team st team_id of
        Inl e \<Rightarrow> (st, raw, Some e)
      | Inr None \<Rightarrow> (st, raw, None)
      | Inr (Some team) \<Rightarrow>
     (case subscript data ''userId'' of
        Inl e \<Rightarrow> (st, raw, Some e)
      | Inr user_id \<Rightarrow>
     (case get_member st team (J user_id) of
        Inl e \<Rightarrow> (st, raw, Some e)
      | Inr None \<Rightarrow> (st, raw, None)
      | Inr (Some before) \<Rightarrow>
     (case subscript data ''userInfo'' of
        Inl e \<Rightarrow> (st, raw, Some e)
      | Inr user_info \<Rightarrow>
     (case items user_info of
        Inl e \<Rightarrow> (st, raw, Some e)
      | Inr field_batch \<Rightarrow>
     (case apply_user_info st team data field_batch None of
        (st', Inl e) \<Rightarrow> (st', raw, Some e)
      | (st', Inr None) \<Rightarrow> (st', raw, Some (UnboundLocalError ''after''))
      | (st', Inr (Some after)) \<Rightarrow>
          (st', raw @ [member_update (heap st') before after], None))))))))"

text \<open>
  The first loop of \<^verbatim>\<open>teamRolesUpdates\<close>; the last argument is
  \<^verbatim>\<open>befores_afters\<close>. Only \<^verbatim>\<open>None\<close> is a falsy lookup result.
\<close>

fun roles_loop ::
  "gateway \<Rightarrow> addr \<Rightarrow> json list \<Rightarrow> (addr \<times> addr) list \<Rightarrow> gateway \<times> (pyerror + (addr \<times> addr) list)" where
  "roles_loop st team [] befores_afters = (st, Inr befores_afters)"
| "roles_loop st team (updated # rest) befores_afters =
     (case subscript updated ''userId'' of
        Inl e \<Rightarrow> (st, Inl e)
      | Inr user_id \<Rightarrow>
     (case get_member st team (J user_id) of
        Inl e \<Rightarrow> (st, Inl e)
      | Inr None \<Rightarrow> roles_loop st team rest befores_afters
      | Inr (Some before) \<Rightarrow>
     (case getattr (heap st) (Ref before) ''id'' of
        Inl e \<Rightarrow> (st, Inl e)
      | Inr before_id \<Rightarrow>
     (case get_member st team before_id of
        Inl e \<Rightarrow> (st, Inl e)
      | Inr after \<Rightarrow>
     (case subscript updated ''roleIds'' of
        Inl e \<Rightarrow> (st, Inl e)
      | Inr role_ids \<Rightarrow>
     (case assign_and_cache st after ''roles'' role_ids of
        (st', Some e) \<Rightarrow> (st', Inl e)
      | (st', None) \<Rightarrow>
          (case after of
             None \<Rightarrow> (st', Inl (AttributeError ''roles''))
           | Some a \<Rightarrow> roles_loop st' team rest (befores_afters @ [(before, a)]))))))))"

definition teamRolesUpdates :: "gateway \<Rightarrow> json \<Rightarrow> outcome" where
  "teamRolesUpdates st data =
     (case subscript data ''teamId'' of
        Inl e \<Rightarrow> (st, [], Some e)
      | Inr team_id \<Rightarrow>
     (case get_team st team_id of
        Inl e \<Rightarrow> (st, [], Some e)
      | Inr None \<Rightarrow> (st, [], None)
      | Inr (Some team) \<Rightarrow>
     (case subscript data ''memberRoleIds'' of
        Inl e \<Rightarrow> (st, [], Some e)
      | Inr batch \<Rightarrow>
     (case iterate batch of
        Inl e \<Rightarrow> (st, [], Some e)
      | Inr updates \<Rightarrow>
     (case roles_loop st team updates [] of
        (st', Inl e) \<Rightarrow> (st', [], Some e)
      | (st', Inr befores_afters) \<Rightarrow>
          (st', map (\<lambda>p. member_update (heap st') (fst p) (snd p)) befores_afters, None))))))"

section \<open>Receiving a frame (gateway.py)\<close>

text \<open>
  What the receive path takes from outside the sources: \<^verbatim>\<open>json.loads\<close>; Python's true
  division \<^verbatim>\<open>a / b\<close> of two integers, which gives the double nearest to the quotient
  and raises OverflowError when that is out of range; the socket's \<^verbatim>\<open>send_str\<close>
  (\<open>Some e\<close> when it raises \<open>e\<close>); and the six handlers whose collaborators
  (\<^verbatim>\<open>Message\<close>, \<^verbatim>\<open>getch_channel\<close>, the clock, ...) are absent.
\<close>

record env =
  loads :: "string \<Rightarrow> pyerror + json"
  truediv :: "int \<Rightarrow> int \<Rightarrow> pyerror + real"
  send_str :: "string \<Rightarrow> pyerror option"
  other_handlers :: "string \<Rightarrow> gateway \<Rightarrow> json \<Rightarrow> gateway \<times> effect list \<times> pyerror option"

definition handler_names :: "string list" where
  "handler_names =
     [''ChatMessageCreated'', ''ChatChannelTyping'', ''ChatMessageDeleted'',
      ''ChatPinnedMessageCreated'', ''ChatPinnedMessageDeleted'', ''ChatMessageUpdated'',
      ''TeamXpSet'', ''TeamMemberUpdated'', ''teamRolesUpdates'']"

text \<open>
  \<^verbatim>\<open>WebSocketEventParsers.get\<close>: \<^verbatim>\<open>getattr(self, event_name, None)\<close>, then a call of
  what was found. The names covered are the ones the class body and \<^verbatim>\<open>__init__\<close>
  define. A handler name
  gives a coroutine; \<^verbatim>\<open>get\<close> is the method itself, called with one argument too few;
  \<^verbatim>\<open>client\<close> and \<^verbatim>\<open>_state\<close> are objects that cannot be called; \<^verbatim>\<open>__init__\<close>
  reads \<^verbatim>\<open>.http\<close> of the payload dictionary. A name that is no string is a TypeError
  of \<^verbatim>\<open>getattr\<close>. The other names that start with two underscores may be attributes
  that every object inherits; what the code does on them is not covered.
\<close>

definition parsers_get :: "json \<Rightarrow> json \<Rightarrow> pyerror + (string \<times> json) option" where
  "parsers_get event_name data =
     (case event_name of
        JStr name \<Rightarrow>
          if name \<in> set handler_names then Inr (Some (name, data))
          else if name = ''get'' then Inl TypeError
          else if name = ''client'' \<or> name = ''_state'' then Inl TypeError
          else if name = ''__init__'' then Inl (AttributeError ''http'')
          else if starts_with ''__'' name then Inl OutsideFragment
          else Inr None
      | _ \<Rightarrow> Inl TypeError)"

definition run_handler :: "env \<Rightarrow> string \<Rightarrow> gateway \<Rightarrow> json \<Rightarrow> outcome" where
  "run_handler ev name st data =
     (if name = ''TeamXpSet'' then TeamXpSet st data
      else if name = ''TeamMemberUpdated'' then TeamMemberUpdated st data
      else if name = ''teamRolesUpdates'' then teamRolesUpdates st data
      else other_handlers ev name st data)"

text \<open>
  \<^verbatim>\<open>data["pingInterval"] / 1000\<close>: true division of an integer (a boolean counts as 0
  or 1); any other decoded value is a TypeError.
\<close>

definition div_1000 :: "env \<Rightarrow> json \<Rightarrow> pyerror + real" where
  "div_1000 ev v =
     (case v of
        JNum n \<Rightarrow> truediv ev n 1000
      | JBool b \<Rightarrow> truediv ev (if b then 1 else 0) 1000
      | _ \<Rightarrow> Inl TypeError)"

text \<open>The branch \<^verbatim>\<open>if data.get("sid"):\<close> of \<^verbatim>\<open>received_event\<close>.\<close>

definition hello :: "env \<Rightarrow> gateway \<Rightarrow> json \<Rightarrow> effect list \<Rightarrow> outcome" where
  "hello ev st data sofar =
     (case subscript data ''sid'' of
        Inl e \<Rightarrow> (st, sofar, Some e)
      | Inr s \<Rightarrow>
     (let st1 = st\<lparr>sid := Some s\<rparr> in
      case subscript data ''upgrades'' of
        Inl e \<Rightarrow> (st1, sofar, Some e)
      | Inr ups \<Rightarrow>
     (let st2 = st1\<lparr>upgrades := ups\<rparr> in
      case subscript data ''pingInterval'' of
        Inl e \<Rightarrow> (st2, sofar, Some e)
      | Inr ping \<Rightarrow>
     (case div_1000 ev ping of
        Inl e \<Rightarrow> (st2, sofar, Some e)
      | Inr interval \<Rightarrow>
     (let st3 = st2\<lparr>ws_heartbeater := Some (Heartbeater_init interval)\<rparr> in
      case send_str ev ''2'' of
        Some e \<Rightarrow> (st3, sofar, Some e)
      | None \<Rightarrow>
          (st3, sofar @ [Send ''2'', HeartbeaterStart (Heartbeater_init interval)], None))))))"

text \<open>
  The rest of \<^verbatim>\<open>received_event\<close>: the lookup of the handler and the
  \<^verbatim>\<open>try\<close>/\<^verbatim>\<open>except\<close> around its run. Only \<open>GuildedException\<close> counts as the
  library's own exception here.
\<close>

definition wrap_error :: "pyerror \<Rightarrow> pyerror" where
  "wrap_error e = (case e of GuildedException _ \<Rightarrow> e | _ \<Rightarrow> GuildedException e)"

definition route_event :: "env \<Rightarrow> gateway \<Rightarrow> json \<Rightarrow> effect list \<Rightarrow> outcome" where
  "route_event ev st data sofar =
     (case subscript data ''type'' of
        Inl e \<Rightarrow> (st, sofar, Some e)
      | Inr event_name \<Rightarrow>
     (case subscript data ''data'' of
        Inl e \<Rightarrow> (st, sofar, Some e)
      | Inr d \<Rightarrow>
     (case parsers_get event_name d of
        Inl e \<Rightarrow> (st, sofar, Some e)
      | Inr None \<Rightarrow> (st, sofar, None)
      | Inr (Some (name, d')) \<Rightarrow>
          (case run_handler ev name st d' of
             (st', effs, None) \<Rightarrow> (st', sofar @ effs, None)
           | (st', effs, Some e) \<Rightarrow>
               (st', sofar @ effs @ [Dispatch ''error'' [AErr (wrap_error e)]],
                Some (wrap_error e))))))"

definition received_event :: "env \<Rightarrow> gateway \<Rightarrow> string \<Rightarrow> outcome" where
  "received_event ev st payload =
     (if str_isdigit payload then (st, [], None)
      else
        (let raw = [Dispatch ''socket_raw_receive'' [AStr payload]] in
         case full_event_parse (loads ev) payload of
           Inl e \<Rightarrow> (st, raw, Some e)
         | Inr data \<Rightarrow>
        (let sofar = raw @ [Dispatch ''socket_response'' [AJson data]] in
         case json_get data ''sid'' of
           Inl e \<Rightarrow> (st, sofar, Some e)
         | Inr s \<Rightarrow>
             if truthy s then hello ev st data sofar else route_event ev st data sofar)))"

text \<open>
  The frames of one connection in the order they arrive; the receive loop ends at the
  first exception.
\<close>

fun received_events :: "env \<Rightarrow> gateway \<Rightarrow> string list \<Rightarrow> outcome" where
  "received_events ev st [] = (st, [], None)"
| "received_events ev st (payload # later) =
     (case received_event ev st payload of
        (st', effs, Some e) \<Rightarrow> (st', effs, Some e)
      | (st', effs, None) \<Rightarrow>
          (case received_events ev st' later of
             (st'', effs', r) \<Rightarrow> (st'', effs @ effs', r)))"

section \<open>The heartbeat thread (gateway.py)\<close>

text \<open>
  \<^verbatim>\<open>Heartbeater.run\<close> against a script of what its two blocking calls return. One
  \<open>tick\<close> is one call of \<^verbatim>\<open>self._stop_ev.wait(self.interval)\<close>: \<open>StopSet\<close> when
  the event is set during the wait, \<open>Beat rs\<close> when the wait times out, with \<open>rs\<close>
  the outcomes of the successive calls \<^verbatim>\<open>f.result(10)\<close> for the heartbeat sent then.
\<close>

datatype result_outcome = Completed | TimedOut | Raised pyerror

datatype tick = StopSet | Beat "result_outcome list"

datatype hb_event =
    LogDebug string
  | LogWarning string nat
  | SendHeartbeat string
  | StopCalled

datatype wait_end = Finished | Failed pyerror | Blocked

datatype thread_state = Exited | Alive

definition block_msg :: string where
  "block_msg = ''Websocket heartbeat blocked for more than %s seconds.''"

text \<open>\<^verbatim>\<open>Heartbeater.stop\<close>.\<close>

definition stop :: "heartbeater \<Rightarrow> heartbeater" where
  "stop h = h\<lparr>hb_stop_ev := True\<rparr>"

text \<open>
  The loop \<^verbatim>\<open>while True\<close> around \<^verbatim>\<open>f.result(10)\<close>, with \<^verbatim>\<open>total\<close> as \<open>waited\<close>. \<open>frames\<close>
  is \<^verbatim>\<open>sys._current_frames()\<close> with each frame already formatted. The handler of the
  timeout reads \<^verbatim>\<open>self._main_thread_id\<close> first: an AttributeError when the attribute
  does not exist, which \<^verbatim>\<open>except KeyError\<close> does not catch. With no outcome left the
  thread is blocked in \<^verbatim>\<open>f.result\<close>.
\<close>

fun wait_result ::
  "heartbeater \<Rightarrow> (nat \<Rightarrow> string option) \<Rightarrow> nat \<Rightarrow> result_outcome list \<Rightarrow> hb_event list \<times> wait_end" where
  "wait_result h frames waited [] = ([], Blocked)"
| "wait_result h frames waited (Completed # later) = ([], Finished)"
| "wait_result h frames waited (Raised e # later) = ([], Failed e)"
| "wait_result h frames waited (TimedOut # later) =
     (case hb_main_thread_id h of
        None \<Rightarrow> ([], Failed (AttributeError ''_main_thread_id''))
      | Some tid \<Rightarrow>
          (let msg = (case frames tid of
                        None \<Rightarrow> block_msg
                      | Some stack \<Rightarrow>
                          block_msg @ [CHR 0x0A]
                            @ ''Loop thread traceback (most recent call last):''
                            @ [CHR 0x0A] @ stack)
           in case wait_result h frames (waited + 10) later of
                (evs, r) \<Rightarrow> (LogWarning msg (waited + 10) # evs, r)))"

text \<open>
  The loop \<^verbatim>\<open>while not self._stop_ev.wait(self.interval)\<close>. An exception out of the
  inner \<^verbatim>\<open>try\<close> calls \<^verbatim>\<open>self.stop()\<close>, so the next wait returns at once and the
  loop ends. When the script is used up the thread is still alive. Handing the send to
  the event loop (\<^verbatim>\<open>run_coroutine_threadsafe\<close>) is taken to succeed.
\<close>

fun run_loop ::
  "heartbeater \<Rightarrow> (nat \<Rightarrow> string option) \<Rightarrow> tick list \<Rightarrow> hb_event list \<times> heartbeater \<times> thread_state" where
  "run_loop h frames [] = ([], h, if hb_stop_ev h then Exited else Alive)"
| "run_loop h frames (t # later) =
     (if hb_stop_ev h then ([], h, Exited)
      else
        (case t of
           StopSet \<Rightarrow> ([], stop h, Exited)
         | Beat rs \<Rightarrow>
             (let sent = [LogDebug ''Sending heartbeat'', SendHeartbeat ''2''] in
              case wait_result h frames 0 rs of
                (evs, Blocked) \<Rightarrow> (sent @ evs, h, Alive)
              | (evs, Finished) \<Rightarrow>
                  (case run_loop h frames later of
                     (evs', h', s) \<Rightarrow> (sent @ evs @ evs', h', s))
              | (evs, Failed e) \<Rightarrow>
                  (case run_loop (stop h) frames later of
                     (evs', h', s) \<Rightarrow> (sent @ evs @ [StopCalled] @ evs', h', s)))))"

definition run :: "heartbeater \<Rightarrow> (nat \<Rightarrow> string option) \<Rightarrow> tick list \<Rightarrow> hb_event list \<times> heartbeater \<times> thread_state" where
  "run h frames script =
     (case run_loop h frames script of
        (evs, h', s) \<Rightarrow> (LogDebug ''Started heartbeat thread'' # evs, h', s))"

text \<open>
  The thread that the handshake started, run on the connection's own
  \<^verbatim>\<open>_heartbeater\<close> object (a connection without one has no thread).
\<close>

definition heartbeat_thread ::
  "gateway \<Rightarrow> (nat \<Rightarrow> string option) \<Rightarrow> tick list \<Rightarrow> gateway \<times> hb_event list \<times> thread_state" where
  "heartbeat_thread ws frames script =
     (case ws_heartbeater ws of
        None \<Rightarrow> (ws, [], Exited)
      | Some h \<Rightarrow>
          (case run h frames script of
             (evs, h', s) \<Rightarrow> (ws\<lparr>ws_heartbeater := Some h'\<rparr>, evs, s)))"

section \<open>HTTP requests (http.py)\<close>

text \<open>\<^verbatim>\<open>Route\<close>: \<^verbatim>\<open>url\<close> is the base followed by the path.\<close>

record route =
  rt_method :: string
  rt_path :: string
  rt_url :: string

definition BASE :: string where
  "BASE = ''https://www.guilded.gg/api''"

definition Route :: "string \<Rightarrow> string \<Rightarrow> string option \<Rightarrow> route" where
  "Route method path override_base =
     \<lparr> rt_method = method, rt_path = path,
       rt_url = (case override_base of None \<Rightarrow> BASE | Some b \<Rightarrow> b) @ path \<rparr>"

text \<open>
  A response as aiohttp hands it over: the status, the headers (names compared without
  regard to case, values are strings) and what \<^verbatim>\<open>await response.json()\<close> gives.
\<close>

record response =
  status :: int
  headers :: "(string \<times> string) list"
  json_body :: "pyerror + json"

definition lower :: "string \<Rightarrow> string" where
  "lower s =
     map (\<lambda>c. if 65 \<le> (of_char c :: nat) \<and> (of_char c :: nat) \<le> 90
               then char_of ((of_char c :: nat) + 32) else c) s"

definition headers_get :: "(string \<times> string) list \<Rightarrow> string \<Rightarrow> string option" where
  "headers_get hs name = map_of (map (\<lambda>p. (lower (fst p), snd p)) hs) (lower name)"

text \<open>
  \<^verbatim>\<open>asyncio.sleep(delay)\<close> starts with the comparison \<^verbatim>\<open>delay <= 0\<close>, a TypeError
  for a string; for a number of seconds the caller is suspended that long.
\<close>

datatype delay = Seconds int | Text string

datatype http_effect =
    Request string string json
  | Sleep int

definition asyncio_sleep :: "delay \<Rightarrow> pyerror + http_effect list" where
  "asyncio_sleep d = (case d of Seconds n \<Rightarrow> Inr [Sleep n] | Text s \<Rightarrow> Inl TypeError)"

text \<open>What \<^verbatim>\<open>request\<close> returns: \<^verbatim>\<open>None\<close>, the decoded body, or the response itself.\<close>

datatype http_value = NoContent | Body json | Whole response

text \<open>
  \<^verbatim>\<open>perform\<close>, the closure of \<^verbatim>\<open>HTTPClient.request\<close>, against the responses the
  server will give, in order. Each call submits \<^verbatim>\<open>session.request(method, url, **kwargs)\<close>;
  with no response left the call stays suspended (\<open>None\<close>). The log calls are left
  out, and so is a failure of the connection itself.
\<close>

fun perform ::
  "route \<Rightarrow> json \<Rightarrow> response list \<Rightarrow> http_effect list \<times> (pyerror + http_value) option" where
  "perform rt kwargs [] = ([Request (rt_method rt) (rt_url rt) kwargs], None)"
| "perform rt kwargs (resp # later) =
     (let sent = [Request (rt_method rt) (rt_url rt) kwargs] in
      if status resp = 204 then (sent, Some (Inr NoContent))
      else
        (case json_body resp of
           Inl e \<Rightarrow> (sent, Some (Inl e))
         | Inr data \<Rightarrow>
             if status resp \<noteq> 200 \<and> status resp = 429 then
               (let retry_after = headers_get (headers resp) ''Retry-After'';
                    d = (case retry_after of
                           None \<Rightarrow> Seconds 5
                         | Some v \<Rightarrow> if v \<noteq> [] then Text v else Seconds 5)
                in case asyncio_sleep d of
                     Inl e \<Rightarrow> (sent, Some (Inl e))
                   | Inr slept \<Rightarrow>
                       (case perform rt kwargs later of
                          (effs, None) \<Rightarrow> (sent @ slept @ effs, None)
                        | (effs, Some (Inl e)) \<Rightarrow> (sent @ slept @ effs, Some (Inl e))
                        | (effs, Some (Inr v)) \<Rightarrow>
                            (sent @ slept @ effs,
                             Some (Inr (if rt_path rt \<noteq> ''/login'' then v else Whole resp)))))
             else if status resp \<noteq> 200 \<and> status resp \<ge> 400 then
               (sent, Some (Inl (HTTPError (status resp))))
             else
               (sent, Some (Inr (if rt_path rt \<noteq> ''/login'' then Body data else Whole resp)))))"

definition request :: "route \<Rightarrow> json \<Rightarrow> response list \<Rightarrow> http_effect list \<times> (pyerror + http_value) option" where
  "request rt kwargs script = perform rt kwargs script"

section \<open>Reference environment and states\<close>

text \<open>
  A reference for the true division of integers where it needs no rounding: a quotient
  that is an integer of at most 53 bits is that double; a quotient of magnitude
  \<open>2 ^ 1024\<close> or more is an OverflowError; the rest is not covered.
\<close>

definition ref_truediv :: "int \<Rightarrow> int \<Rightarrow> pyerror + real" where
  "ref_truediv a b =
     (if b = 0 then Inl ZeroDivisionError
      else if b dvd a \<and> \<bar>a div b\<bar> \<le> 2 ^ 53 then Inr (real_of_int (a div b))
      else if 2 ^ 1024 * \<bar>b\<bar> \<le> \<bar>a\<bar> then Inl OverflowError
      else Inl OutsideFragment)"

text \<open>
  An environment in which the socket accepts every text and the handlers outside this
  development do nothing, and a connection that has one team \<^verbatim>\<open>t1\<close> (at address 0)
  with one member \<^verbatim>\<open>u1\<close> (at address 1) in its cache.
\<close>

definition quiet_env :: env where
  "quiet_env =
     \<lparr> loads = json_loads, truediv = ref_truediv, send_str = (\<lambda>text. None),
       other_handlers = (\<lambda>name st data. (st, [], None)) \<rparr>"

definition team_gateway :: gateway where
  "team_gateway =
     \<lparr> sid = None, upgrades = JArr [], ws_heartbeater = None,
       teams = [(J (JStr ''t1''), 0)],
       team_members = [(J (JStr ''t1''), [(J (JStr ''u1''), 1)])],
       messages = [], max_messages = 1000,
       heap = [(0, [(''id'', J (JStr ''t1''))]),
               (1, [(''id'', J (JStr ''u1'')), (''team'', Ref 0), (''xp'', J (JNum 3))])] \<rparr>"

text \<open>
  The same connection with a second member \<^verbatim>\<open>u3\<close> (at address 2) of team \<^verbatim>\<open>t1\<close>.
\<close>

definition two_member_gateway :: gateway where
  "two_member_gateway =
     \<lparr> sid = None, upgrades = JArr [], ws_heartbeater = None,
       teams = [(J (JStr ''t1''), 0)],
       team_members = [(J (JStr ''t1''), [(J (JStr ''u1''), 1), (J (JStr ''u3''), 2)])],
       messages = [], max_messages = 1000,
       heap = [(0, [(''id'', J (JStr ''t1''))]),
               (1, [(''id'', J (JStr ''u1'')), (''team'', Ref 0), (''xp'', J (JNum 3))]),
               (2, [(''id'', J (JStr ''u3'')), (''team'', Ref 0), (''xp'', J (JNum 5))])] \<rparr>"

text \<open>A new connection after the handshake with \<^verbatim>\<open>sid\<close> abc123 and \<^verbatim>\<open>pingInterval\<close> 25000.\<close>

definition after_hello :: gateway where
  "after_hello =
     \<lparr> sid = Some (JStr ''abc123''), upgrades = JArr [],
       ws_heartbeater = Some (Heartbeater_init 25),
       teams = [], team_members = [], messages = [], max_messages = 1000, heap = [] \<rparr>"

section \<open>Properties of states and traces\<close>

text \<open>
  The member cached for team key \<open>T\<close> under member key \<open>K\<close>, and the condition that
  the cache is keyed by id: every cached member has an \<^verbatim>\<open>id\<close> attribute whose
  dictionary key is the key it is cached under (what \<^verbatim>\<open>add_to_member_cache\<close>
  establishes for the member it stores).
\<close>

definition member_at :: "gateway \<Rightarrow> pyval \<Rightarrow> pyval \<Rightarrow> addr option" where
  "member_at st T K = (case map_of (team_members st) T of None \<Rightarrow> None | Some ms \<Rightarrow> map_of ms K)"

definition own_id :: "store \<Rightarrow> pyval \<times> addr \<Rightarrow> bool" where
  "own_id h p =
     (case getattr h (Ref (snd p)) ''id'' of Inl e \<Rightarrow> False | Inr v \<Rightarrow> dict_key v = Inr (fst p))"

definition keyed :: "gateway \<Rightarrow> bool" where
  "keyed st = list_all (\<lambda>t. list_all (own_id (heap st)) (snd t)) (team_members st)"

text \<open>
  Team objects and member objects are instances of different classes: no address in the
  team cache is an address in the member cache.
\<close>

definition member_addrs :: "gateway \<Rightarrow> addr list" where
  "member_addrs st = concat (map (\<lambda>t. map snd (snd t)) (team_members st))"

definition separate :: "gateway \<Rightarrow> bool" where
  "separate st = list_all (\<lambda>t. snd t \<notin> set (member_addrs st)) (teams st)"

text \<open>
  The role lists that the batch of a \<^verbatim>\<open>teamRolesUpdates\<close> payload assigns, and an
  object after the fields of a \<^verbatim>\<open>userInfo\<close> batch were assigned to it in order.
\<close>

definition batch_roles :: "json \<Rightarrow> json list" where
  "batch_roles data =
     (case subscript data ''memberRoleIds'' of
        Inl e \<Rightarrow> []
      | Inr batch \<Rightarrow>
          (case iterate batch of
             Inl e \<Rightarrow> []
           | Inr updates \<Rightarrow>
               concat (map (\<lambda>u. case subscript u ''roleIds'' of Inl e \<Rightarrow> [] | Inr r \<Rightarrow> [r])
                 updates)))"

definition apply_fields :: "(string \<times> json) list \<Rightarrow> pyobj \<Rightarrow> pyobj" where
  "apply_fields kvs obj = fold (\<lambda>kv. AList.update (fst kv) (J (snd kv))) kvs obj"

text \<open>
  A \<^verbatim>\<open>member_update\<close> event whose two arguments are one and the same object of the
  store \<open>h\<close>, seen with the attributes it has in \<open>h\<close>. Every other effect passes.
\<close>

definition same_object :: "store \<Rightarrow> effect \<Rightarrow> bool" where
  "same_object h e =
     (case e of
        Dispatch name args \<Rightarrow>
          if name = ''member_update'' then
            (case args of
               [ARef b before, ARef a after] \<Rightarrow> b = a \<and> before = after \<and> after = deref h a
             | _ \<Rightarrow> False)
          else True
      | _ \<Rightarrow> True)"

text \<open>
  A \<^verbatim>\<open>member_update\<close> event for one object of the store \<open>h\<close> whose \<^verbatim>\<open>roles\<close>,
  as seen through both arguments, are one of the role lists \<open>rs\<close>.
\<close>

definition shows_roles :: "store \<Rightarrow> json list \<Rightarrow> effect \<Rightarrow> bool" where
  "shows_roles h rs e =
     (case e of
        Dispatch name args \<Rightarrow>
          name = ''member_update'' \<and>
          (case args of
             [ARef b before, ARef a after] \<Rightarrow>
               b = a \<and> before = deref h a \<and> after = deref h a
               \<and> list_ex (\<lambda>r. map_of before ''roles'' = Some (J r)) rs
           | _ \<Rightarrow> False)
      | _ \<Rightarrow> False)"

section \<open>Evaluation of the reference reader\<close>

lemmas json_eval =
  json_loads_def starts_with_def skip_ws_def is_ws_def parse_number_def digits_value_def
  isdigit_def unescape_def

lemmas frame_eval =
  full_event_parse_def strip_type_code_def pretty_event_def second_of_list_def json_eval

lemmas event_eval =
  received_event_def str_isdigit_def json_get_def subscript_def hello_def route_event_def
  parsers_get_def handler_names_def run_handler_def wrap_error_def div_1000_def
  quiet_env_def ref_truediv_def frame_eval

lemmas handler_eval =
  TeamXpSet_def TeamMemberUpdated_def teamRolesUpdates_def get_team_def get_team_http_def
  get_member_def get_team_member_http_def dict_get_def dict_set_def dict_key_def getattr_def
  setattr_def deref_def assign_and_cache_def add_to_member_cache_def member_team_id_def
  member_update_def index0_def iterate_def items_def starts_with_def team_gateway_def

section \<open>Frame decoding: the leading digit run\<close>

lemma strip_loop_self: "strip_loop cs cs = dropWhile isdigit cs"
  by (induction cs) simp_all

lemma strip_type_code_dropWhile: "strip_type_code payload = dropWhile isdigit payload"
  by (simp add: strip_type_code_def strip_loop_self)

lemma dropWhile_digits_append:
  "list_all isdigit ds \<Longrightarrow> dropWhile isdigit (ds @ js) = dropWhile isdigit js"
  by (induction ds) simp_all

lemma full_event_parse_dropWhile:
  "full_event_parse parse payload =
     (case parse (dropWhile isdigit payload) of Inl e \<Rightarrow> Inl e | Inr data \<Rightarrow> pretty_event data)"
  by (simp add: full_event_parse_def strip_type_code_dropWhile)

text \<open>
  C9. For a frame text made of one or more digits \<open>ds\<close> followed by a text \<open>js\<close>, the
  loop of \<^verbatim>\<open>_full_event_parse\<close> removes exactly the leading run of digits (all of
  \<open>ds\<close>, and the digits \<open>js\<close> itself may start with), the rest is handed to
  \<^verbatim>\<open>json.loads\<close> and the decoded value to \<^verbatim>\<open>_pretty_event\<close>; when \<open>js\<close> does not
  start with a digit the rest is \<open>js\<close>. A frame of digits only is dropped by
  \<^verbatim>\<open>received_event\<close>: nothing is dispatched, the state is unchanged, nothing is raised.
\<close>

theorem full_event_parse_strips_digit_run:
  assumes "ds \<noteq> []" and "list_all isdigit ds"
  shows "strip_type_code (ds @ js) = dropWhile isdigit js
       \<and> full_event_parse parse (ds @ js) =
           (case parse (dropWhile isdigit js) of Inl e \<Rightarrow> Inl e | Inr data \<Rightarrow> pretty_event data)
       \<and> (dropWhile isdigit js = js \<longleftrightarrow> js = [] \<or> \<not> isdigit (hd js))
       \<and> received_event ev st ds = (st, [], None)"
proof -
  have "strip_type_code (ds @ js) = dropWhile isdigit js"
    using assms(2) by (simp add: strip_type_code_dropWhile dropWhile_digits_append)
  moreover have "full_event_parse parse (ds @ js) =
      (case parse (dropWhile isdigit js) of Inl e \<Rightarrow> Inl e | Inr data \<Rightarrow> pretty_event data)"
    using assms(2) by (simp add: full_event_parse_dropWhile dropWhile_digits_append)
  moreover have "dropWhile isdigit js = js \<longleftrightarrow> js = [] \<or> \<not> isdigit (hd js)"
  proof (cases js)
    case Nil
    then show ?thesis by simp
  next
    case (Cons c cs)
    have "length (dropWhile isdigit cs) \<le> length cs"
      by (rule length_dropWhile_le)
    then have "dropWhile isdigit cs \<noteq> c # cs"
      by auto
    with Cons show ?thesis by simp
  qed
  moreover have "received_event ev st ds = (st, [], None)"
    using assms by (simp add: received_event_def str_isdigit_def)
  ultimately show ?thesis by simp
qed

theorem full_event_parse_strips_digit_run_witness:
  \<open>strip_type_code ''42["TeamXpSet", {"type": "TeamXpSet", "amount": 5}]''
       = ''["TeamXpSet", {"type": "TeamXpSet", "amount": 5}]''
   \<and> full_event_parse json_loads ''42["TeamXpSet", {"type": "TeamXpSet", "amount": 5}]''
       = Inr (JObj [(''type'', JStr ''TeamXpSet''), (''data'', JObj [(''amount'', JNum 5)])])
   \<and> received_event quiet_env team_gateway ''42'' = (team_gateway, [], None)\<close>
proof -
  have digits: "list_all isdigit ''42''" and nonempty: "''42'' \<noteq> []"
    by (simp_all add: isdigit_def)
  have parsed: \<open>json_loads ''["TeamXpSet", {"type": "TeamXpSet", "amount": 5}]''
      = Inr (JArr [JStr ''TeamXpSet'', JObj [(''type'', JStr ''TeamXpSet''), (''amount'', JNum 5)]])\<close>
    by (simp add: json_eval)
  show ?thesis
    using full_event_parse_strips_digit_run [OF nonempty digits,
        of \<open>''["TeamXpSet", {"type": "TeamXpSet", "amount": 5}]''\<close> json_loads quiet_env team_gateway]
    by (simp add: isdigit_def parsed pretty_event_def second_of_list_def)
qed

section \<open>Round trip of an outbound frame\<close>

text \<open>
  C1 as stated fails: the text that \<open>encode\<close> produces for the event name \<^verbatim>\<open>foo\<close> and
  the payload \<^verbatim>\<open>{"a": 1}\<close> does not decode to \<^verbatim>\<open>{type: "foo", data: {"a": 1}}\<close>.
\<close>

theorem encode_decode_counterexample:
  "full_event_parse json_loads (encode ''foo'' (JObj [(''a'', JNum 1)]))
     \<noteq> Inr (JObj [(''type'', JStr ''foo''), (''data'', JObj [(''a'', JNum 1)])])"
  by code_simp

text \<open>
  C1, amended. \<^verbatim>\<open>_pretty_event\<close> takes the second element of the decoded array and
  reads the event type from that element's own \<^verbatim>\<open>"type"\<close> key; the event name in the
  first element is dropped. So the frame for \<^verbatim>\<open>foo\<close> and \<^verbatim>\<open>{"a": 1}\<close> is the text
  \<^verbatim>\<open>42["foo", {"a": 1}]\<close> and decodes to the payload \<^verbatim>\<open>{"a": 1}\<close> itself, and
  \<^verbatim>\<open>{type: "foo", data: {"a": 1}}\<close> is what the frame for the payload
  \<^verbatim>\<open>{"type": "foo", "a": 1}\<close> decodes to.
\<close>

theorem encode_decode_payload:
  \<open>encode ''foo'' (JObj [(''a'', JNum 1)]) = ''42["foo", {"a": 1}]''
   \<and> full_event_parse json_loads (encode ''foo'' (JObj [(''a'', JNum 1)]))
       = Inr (JObj [(''a'', JNum 1)])
   \<and> full_event_parse json_loads (encode ''foo'' (JObj [(''type'', JStr ''foo''), (''a'', JNum 1)]))
       = Inr (JObj [(''type'', JStr ''foo''), (''data'', JObj [(''a'', JNum 1)])])\<close>
  by code_simp

section \<open>The bounded message cache\<close>

lemma evict_drop:
  assumes "0 \<le> N" and "distinct (map fst ms)"
  shows "evict N ms = Inr (drop (length ms - nat N) ms)"
  using assms
proof (induction N ms rule: evict.induct)
  case (1 N ms)
  show ?case
  proof (cases "int (length ms) > N")
    case False
    then have "length ms - nat N = 0" by simp
    with False show ?thesis by (simp add: evict.simps [of N ms])
  next
    case True
    with "1.prems" obtain p rest where ms: "ms = p # rest"
      by (cases ms) auto
    have notin: "fst p \<notin> fst ` set rest"
      using "1.prems"(2) ms by auto
    have del: "AList.delete (fst p) ms = rest"
      using notin ms by (cases p) (simp add: AList.delete_id)
    have "evict N (AList.delete (fst p) ms) = Inr (drop (length rest - nat N) rest)"
      using "1.IH" [OF True ms] "1.prems" ms del by simp
    moreover have "drop (length ms - nat N) ms = drop (length rest - nat N) rest"
      using True ms "1.prems"(1) by (simp add: Suc_diff_le nat_le_iff)
    moreover have "evict N ms = evict N (AList.delete (fst p) ms)"
      using True ms by (subst evict.simps) simp
    ultimately show ?thesis
      by simp
  qed
qed

lemma drop_append_le: "n \<le> length xs \<Longrightarrow> drop n (xs @ ys) = drop n xs @ ys"
  by simp

lemma drop_one_tl: "n = Suc 0 \<Longrightarrow> drop n xs = tl xs"
  by (simp add: drop_Suc)

lemma update_new_key: "k \<notin> fst ` set ms \<Longrightarrow> AList.update k m ms = ms @ [(k, m)]"
  by (induction ms) auto

lemma length_update_old: "k \<in> fst ` set ms \<Longrightarrow> length (AList.update k m ms) = length ms"
  by (induction ms) auto

lemma add_to_message_cache_eq:
  assumes "0 \<le> N" and "distinct (map fst ms)" and "int (length ms) \<le> N"
  shows "add_to_message_cache N ms k m =
     Inr (if k \<in> fst ` set ms \<or> int (length ms) < N then AList.update k m ms
          else tl (ms @ [(k, m)]))"
proof -
  let ?u = "AList.update k m ms"
  have d: "distinct (map fst ?u)"
    using assms(2) by (rule AList.distinct_update)
  have e: "add_to_message_cache N ms k m = Inr (drop (length ?u - nat N) ?u)"
    unfolding add_to_message_cache_def using assms(1) d by (rule evict_drop)
  show ?thesis
  proof (cases "k \<in> fst ` set ms")
    case True
    then have "length ?u - nat N = 0"
      using assms(1,3) by (simp add: length_update_old)
    with True e show ?thesis by simp
  next
    case False
    then have u: "?u = ms @ [(k, m)]" by (rule update_new_key)
    show ?thesis
    proof (cases "int (length ms) < N")
      case True
      then have "length ?u - nat N = 0" using u by simp
      with True e show ?thesis by simp
    next
      case notless: False
      then have "length ?u - nat N = Suc 0" using u assms(1,3) by simp
      then have "drop (length ?u - nat N) ?u = tl ?u" by (rule drop_one_tl)
      with False notless e u show ?thesis by (simp only: if_False simp_thms)
    qed
  qed
qed

lemma add_to_message_cache_inv:
  assumes "0 \<le> N" and "distinct (map fst ms)" and "int (length ms) \<le> N"
    and "add_to_message_cache N ms k m = Inr ms'"
  shows "int (length ms') \<le> N \<and> distinct (map fst ms')"
proof -
  let ?u = "AList.update k m ms"
  have d: "distinct (map fst ?u)"
    using assms(2) by (rule AList.distinct_update)
  have "add_to_message_cache N ms k m = Inr (drop (length ?u - nat N) ?u)"
    unfolding add_to_message_cache_def using assms(1) d by (rule evict_drop)
  with assms(4) have ms': "ms' = drop (length ?u - nat N) ?u" by simp
  have "distinct (map fst ms')"
    unfolding ms' using d by (simp add: drop_map [symmetric] distinct_drop)
  moreover have "int (length ms') \<le> N"
    unfolding ms' using assms(1) by simp
  ultimately show ?thesis by simp
qed

lemma add_all_drop:
  assumes "0 \<le> N" and "distinct (map fst (ms @ new))" and "int (length ms) \<le> N"
  shows "add_all N ms new = Inr (drop (length (ms @ new) - nat N) (ms @ new))"
  using assms
proof (induction new arbitrary: ms)
  case Nil
  then show ?case by simp
next
  case (Cons p new)
  obtain k m where p: "p = (k, m)" by (cases p)
  have fresh: "k \<notin> fst ` set ms" and dms: "distinct (map fst ms)"
    using Cons.prems(2) p by auto
  let ?ms1 = "if int (length ms) < N then ms @ [(k, m)] else tl (ms @ [(k, m)])"
  have step: "add_to_message_cache N ms k m = Inr ?ms1"
    using add_to_message_cache_eq [OF Cons.prems(1) dms Cons.prems(3), of k m] fresh
    by (simp add: update_new_key)
  have ms1: "?ms1 = drop (length ms + 1 - nat N) (ms @ [(k, m)])"
  proof (cases "int (length ms) < N")
    case True
    then have "length ms + 1 - nat N = 0" by simp
    with True show ?thesis by simp
  next
    case False
    with Cons.prems(1,3) have "length ms + 1 - nat N = Suc 0" by simp
    then have "drop (length ms + 1 - nat N) (ms @ [(k, m)]) = tl (ms @ [(k, m)])"
      by (rule drop_one_tl)
    with False show ?thesis by (simp only: if_False)
  qed
  have len1: "int (length ?ms1) \<le> N"
    using Cons.prems(1,3) by auto
  have "set ?ms1 \<subseteq> set (ms @ [(k, m)])"
    unfolding ms1 by (rule set_drop_subset)
  have d1: "distinct (map fst (?ms1 @ new))"
  proof -
    have "length ms + 1 - nat N \<le> length (ms @ [(k, m)])"
      by simp
    then have "drop (length ms + 1 - nat N) ((ms @ [(k, m)]) @ new)
        = drop (length ms + 1 - nat N) (ms @ [(k, m)]) @ new"
      by (rule drop_append_le)
    moreover have "(ms @ [(k, m)]) @ new = ms @ p # new"
      using p by simp
    ultimately have "?ms1 @ new = drop (length ms + 1 - nat N) (ms @ p # new)"
      using ms1 by (simp only:)
    moreover have "distinct (map fst (drop (length ms + 1 - nat N) (ms @ p # new)))"
      using Cons.prems(2) by (simp only: drop_map [symmetric] distinct_drop)
    ultimately show ?thesis by (simp only:)
  qed
  have "add_all N ?ms1 new = Inr (drop (length (?ms1 @ new) - nat N) (?ms1 @ new))"
    using Cons.IH [OF Cons.prems(1) d1 len1] .
  moreover have "drop (length (?ms1 @ new) - nat N) (?ms1 @ new)
      = drop (length (ms @ p # new) - nat N) (ms @ p # new)"
  proof (cases "int (length ms) < N")
    case True
    then show ?thesis using p by simp
  next
    case False
    with Cons.prems(3) have eq: "length ms = nat N" by simp
    from False have "?ms1 = tl (ms @ [(k, m)])" by simp
    then have A: "?ms1 @ new = tl (ms @ p # new)"
      using p by (cases ms) simp_all
    have B: "length (tl (ms @ p # new)) - nat N = length new"
      using eq by simp
    have C: "length (ms @ p # new) - nat N = Suc (length new)"
      using eq by simp
    have "drop (length new) (tl (ms @ p # new)) = drop (Suc (length new)) (ms @ p # new)"
      by (simp only: drop_Suc)
    then show ?thesis
      by (simp only: A B C)
  qed
  ultimately show ?case
    using step p by simp
qed

text \<open>
  C6. For a message cache with bound \<open>N\<close> that holds at most \<open>N\<close> entries, an insert
  succeeds and leaves at most \<open>N\<close> entries: an id that is already cached has its entry
  overwritten in place, a new id is appended while there is room, and otherwise the new
  entry is appended and exactly the first (oldest inserted) entry is removed. Inserting
  \<open>N + 1\<close> messages with distinct ids into the empty cache leaves exactly \<open>N\<close>
  entries: all but the first inserted one.
\<close>

theorem message_cache_bounded_fifo:
  assumes "0 \<le> N" and "distinct (map fst ms)" and "int (length ms) \<le> N"
  shows "add_to_message_cache N ms k m =
           Inr (if k \<in> fst ` set ms \<or> int (length ms) < N then AList.update k m ms
                else tl (ms @ [(k, m)]))
       \<and> (case add_to_message_cache N ms k m of
            Inl e \<Rightarrow> False
          | Inr ms' \<Rightarrow> int (length ms') \<le> N \<and> distinct (map fst ms'))
       \<and> (distinct (map fst new) \<and> int (length new) = N + 1 \<longrightarrow>
            add_all N [] new = Inr (tl new) \<and> int (length (tl new)) = N)"
proof -
  have first: "add_to_message_cache N ms k m =
      Inr (if k \<in> fst ` set ms \<or> int (length ms) < N then AList.update k m ms
           else tl (ms @ [(k, m)]))"
    using assms by (rule add_to_message_cache_eq)
  have second: "case add_to_message_cache N ms k m of
      Inl e \<Rightarrow> False
    | Inr ms' \<Rightarrow> int (length ms') \<le> N \<and> distinct (map fst ms')"
    using add_to_message_cache_inv [OF assms] first by simp
  have third: "add_all N [] new = Inr (tl new) \<and> int (length (tl new)) = N"
    if "distinct (map fst new)" and "int (length new) = N + 1"
  proof -
    have "add_all N [] new = Inr (drop (length ([] @ new) - nat N) ([] @ new))"
      using assms(1) that(1) by (intro add_all_drop) simp_all
    moreover have "length new - nat N = 1"
      using that(2) assms(1) by linarith
    ultimately show ?thesis
      using that(2) by (simp add: drop_Suc)
  qed
  from first second third show ?thesis by blast
qed

theorem message_cache_bounded_fifo_witness:
  "add_to_message_cache 2 [(1 :: nat, ''a''), (2, ''b'')] 3 ''c'' = Inr [(2, ''b''), (3, ''c'')]
   \<and> add_all 2 [] [(1 :: nat, ''a''), (2, ''b''), (3, ''c'')] = Inr [(2, ''b''), (3, ''c'')]"
proof -
  have h1: "(0 :: int) \<le> 2" by simp
  have h2: "distinct (map fst [(1 :: nat, ''a''), (2, ''b'')])" by simp
  have h3: "int (length [(1 :: nat, ''a''), (2, ''b'')]) \<le> 2" by simp
  have h4: "distinct (map fst [(1 :: nat, ''a''), (2, ''b''), (3, ''c'')])
      \<and> int (length [(1 :: nat, ''a''), (2, ''b''), (3, ''c'')]) = 2 + 1" by simp
  show ?thesis
    using message_cache_bounded_fifo [OF h1 h2 h3, of 3 "''c''" "[(1 :: nat, ''a''), (2, ''b''), (3, ''c'')]"] h4
    by simp
qed

section \<open>The handshake frame\<close>

text \<open>
  C3 as stated fails: nothing in \<^verbatim>\<open>received_event\<close> keeps the frame with a
  \<^verbatim>\<open>sid\<close> to one per connection, or the session fixed once it is set. Two such frames
  on one connection are both handled: the second replaces \<^verbatim>\<open>sid\<close>, \<^verbatim>\<open>upgrades\<close>
  and the heartbeat object, and a second heartbeat thread is started.
\<close>

theorem handshake_twice_counterexample:
  \<open>received_events quiet_env (new_gateway 1000)
     [''0{"sid":"abc123","upgrades":[],"pingInterval":25000,"pingTimeout":5000}'',
      ''0{"sid":"def456","upgrades":["websocket"],"pingInterval":10000,"pingTimeout":5000}'']
   = (\<lparr> sid = Some (JStr ''def456''), upgrades = JArr [JStr ''websocket''],
        ws_heartbeater = Some (Heartbeater_init 10),
        teams = [], team_members = [], messages = [], max_messages = 1000, heap = [] \<rparr>,
      [Dispatch ''socket_raw_receive''
         [AStr ''0{"sid":"abc123","upgrades":[],"pingInterval":25000,"pingTimeout":5000}''],
       Dispatch ''socket_response''
         [AJson (JObj [(''sid'', JStr ''abc123''), (''upgrades'', JArr []),
                       (''pingInterval'', JNum 25000), (''pingTimeout'', JNum 5000)])],
       Send ''2'',
       HeartbeaterStart (Heartbeater_init 25),
       Dispatch ''socket_raw_receive''
         [AStr ''0{"sid":"def456","upgrades":["websocket"],"pingInterval":10000,"pingTimeout":5000}''],
       Dispatch ''socket_response''
         [AJson (JObj [(''sid'', JStr ''def456''), (''upgrades'', JArr [JStr ''websocket'']),
                       (''pingInterval'', JNum 10000), (''pingTimeout'', JNum 5000)])],
       Send ''2'',
       HeartbeaterStart (Heartbeater_init 10)],
      None)\<close>
  by (simp add: event_eval new_gateway_def)

lemma json_get_truthy_subscript:
  "json_get data key = Inr s \<Longrightarrow> truthy s \<Longrightarrow> subscript data key = Inr s"
  by (auto simp: json_get_def subscript_def split: json.splits option.splits)

text \<open>
  C3, amended. Every frame that is not all digits and whose decoded payload has a truthy
  \<^verbatim>\<open>sid\<close>, an \<^verbatim>\<open>upgrades\<close> entry and an integer \<^verbatim>\<open>pingInterval\<close> \<open>n\<close> for
  which \<^verbatim>\<open>n / 1000\<close> evaluates to a float \<open>interval\<close> is handled as a handshake, in
  whatever state the connection is: after the two raw socket events, \<^verbatim>\<open>sid\<close> and
  \<^verbatim>\<open>upgrades\<close> are set from the payload, a new heartbeat object with that interval
  replaces the old one, the heartbeat text \<^verbatim>\<open>2\<close> is sent and the new thread is
  started, in this order, and no event handler runs for the frame. All of this is done
  before any later frame is processed: the effects of the later frames follow the start
  of the thread. For \<^verbatim>\<open>pingInterval\<close> 25000 the interval is 25.
\<close>

theorem handshake_initialises_session:
  assumes "\<not> str_isdigit payload"
    and "full_event_parse (loads ev) payload = Inr data"
    and "json_get data ''sid'' = Inr s" and "truthy s"
    and "subscript data ''upgrades'' = Inr ups"
    and "subscript data ''pingInterval'' = Inr (JNum n)"
    and "truediv ev n 1000 = Inr interval"
    and "send_str ev ''2'' = None"
  shows \<open>received_event ev st payload =
     (st\<lparr>sid := Some s, upgrades := ups, ws_heartbeater := Some (Heartbeater_init interval)\<rparr>,
      [Dispatch ''socket_raw_receive'' [AStr payload],
       Dispatch ''socket_response'' [AJson data],
       Send ''2'',
       HeartbeaterStart (Heartbeater_init interval)],
      None)
     \<and> received_events ev st (payload # later) =
         (case received_events ev
                 (st\<lparr>sid := Some s, upgrades := ups,
                     ws_heartbeater := Some (Heartbeater_init interval)\<rparr>) later of
            (st', effs, r) \<Rightarrow>
              (st',
               [Dispatch ''socket_raw_receive'' [AStr payload],
                Dispatch ''socket_response'' [AJson data],
                Send ''2'',
                HeartbeaterStart (Heartbeater_init interval)] @ effs,
               r))
     \<and> hb_interval (Heartbeater_init interval) = interval
     \<and> received_event quiet_env (new_gateway 1000)
           ''0{"sid":"abc123","upgrades":[],"pingInterval":25000,"pingTimeout":5000}''
         = ((new_gateway 1000)\<lparr>sid := Some (JStr ''abc123''), upgrades := JArr [],
               ws_heartbeater := Some (Heartbeater_init 25)\<rparr>,
            [Dispatch ''socket_raw_receive''
               [AStr ''0{"sid":"abc123","upgrades":[],"pingInterval":25000,"pingTimeout":5000}''],
             Dispatch ''socket_response''
               [AJson (JObj [(''sid'', JStr ''abc123''), (''upgrades'', JArr []),
                             (''pingInterval'', JNum 25000), (''pingTimeout'', JNum 5000)])],
             Send ''2'',
             HeartbeaterStart (Heartbeater_init 25)],
            None)\<close>
proof -
  let ?st' = "st\<lparr>sid := Some s, upgrades := ups, ws_heartbeater := Some (Heartbeater_init interval)\<rparr>"
  let ?effs = "[Dispatch ''socket_raw_receive'' [AStr payload],
                Dispatch ''socket_response'' [AJson data],
                Send ''2'',
                HeartbeaterStart (Heartbeater_init interval)]"
  have s: "subscript data ''sid'' = Inr s"
    using assms(3,4) by (rule json_get_truthy_subscript)
  have "hello ev st data
          [Dispatch ''socket_raw_receive'' [AStr payload], Dispatch ''socket_response'' [AJson data]]
      = (?st', ?effs, None)"
    using s assms(5,6,7,8) by (simp add: hello_def div_1000_def)
  then have one: "received_event ev st payload = (?st', ?effs, None)"
    using assms(1,2,3,4) by (simp add: received_event_def)
  then have two: "received_events ev st (payload # later) =
      (case received_events ev ?st' later of (st', effs, r) \<Rightarrow> (st', ?effs @ effs, r))"
    by simp
  have three: "hb_interval (Heartbeater_init interval) = interval"
    by (simp add: Heartbeater_init_def)
  have four: \<open>received_event quiet_env (new_gateway 1000)
           ''0{"sid":"abc123","upgrades":[],"pingInterval":25000,"pingTimeout":5000}''
         = ((new_gateway 1000)\<lparr>sid := Some (JStr ''abc123''), upgrades := JArr [],
               ws_heartbeater := Some (Heartbeater_init 25)\<rparr>,
            [Dispatch ''socket_raw_receive''
               [AStr ''0{"sid":"abc123","upgrades":[],"pingInterval":25000,"pingTimeout":5000}''],
             Dispatch ''socket_response''
               [AJson (JObj [(''sid'', JStr ''abc123''), (''upgrades'', JArr []),
                             (''pingInterval'', JNum 25000), (''pingTimeout'', JNum 5000)])],
             Send ''2'',
             HeartbeaterStart (Heartbeater_init 25)],
            None)\<close>
    by (simp add: event_eval new_gateway_def)
  from one two three four show ?thesis
    by (simp only: simp_thms)
qed

text \<open>
  A second handshake, with \<^verbatim>\<open>sid\<close> def456 and \<^verbatim>\<open>pingInterval\<close> 10000, on the
  connection that already has the session abc123, followed by an answer frame: the
  session is replaced and a thread with interval 10 is started.
\<close>

theorem handshake_initialises_session_witness:
  \<open>received_events quiet_env after_hello
       [''0{"sid":"def456","upgrades":["websocket"],"pingInterval":10000,"pingTimeout":5000}'',
        ''3'']
   = (after_hello\<lparr>sid := Some (JStr ''def456''), upgrades := JArr [JStr ''websocket''],
         ws_heartbeater := Some (Heartbeater_init 10)\<rparr>,
      [Dispatch ''socket_raw_receive''
         [AStr ''0{"sid":"def456","upgrades":["websocket"],"pingInterval":10000,"pingTimeout":5000}''],
       Dispatch ''socket_response''
         [AJson (JObj [(''sid'', JStr ''def456''), (''upgrades'', JArr [JStr ''websocket'']),
                       (''pingInterval'', JNum 10000), (''pingTimeout'', JNum 5000)])],
       Send ''2'',
       HeartbeaterStart (Heartbeater_init 10)],
      None)\<close>
proof -
  let ?payload = \<open>''0{"sid":"def456","upgrades":["websocket"],"pingInterval":10000,"pingTimeout":5000}''\<close>
  let ?data = "JObj [(''sid'', JStr ''def456''), (''upgrades'', JArr [JStr ''websocket'']),
                     (''pingInterval'', JNum 10000), (''pingTimeout'', JNum 5000)]"
  have h1: "\<not> str_isdigit ?payload"
    by (simp add: str_isdigit_def isdigit_def)
  have h2: "full_event_parse (loads quiet_env) ?payload = Inr ?data"
    by (simp add: quiet_env_def frame_eval)
  have h3: "json_get ?data ''sid'' = Inr (JStr ''def456'')"
    by (simp add: json_get_def)
  have h4: "truthy (JStr ''def456'')"
    by simp
  have h5: "subscript ?data ''upgrades'' = Inr (JArr [JStr ''websocket''])"
    by (simp add: subscript_def)
  have h6: "subscript ?data ''pingInterval'' = Inr (JNum 10000)"
    by (simp add: subscript_def)
  have h7: "truediv quiet_env 10000 1000 = Inr 10"
    by (simp add: quiet_env_def ref_truediv_def)
  have h8: "send_str quiet_env ''2'' = None"
    by (simp add: quiet_env_def)
  have answer: "received_events quiet_env st [''3''] = (st, [], None)" for st
    by (simp add: received_event_def str_isdigit_def isdigit_def)
  have "received_events quiet_env after_hello [?payload, ''3''] =
      (case received_events quiet_env
              (after_hello\<lparr>sid := Some (JStr ''def456''), upgrades := JArr [JStr ''websocket''],
                  ws_heartbeater := Some (Heartbeater_init 10)\<rparr>) [''3''] of
         (st', effs, r) \<Rightarrow>
           (st',
            [Dispatch ''socket_raw_receive'' [AStr ?payload],
             Dispatch ''socket_response'' [AJson ?data],
             Send ''2'',
             HeartbeaterStart (Heartbeater_init 10)] @ effs,
            r))"
    using handshake_initialises_session [OF h1 h2 h3 h4 h5 h6 h7 h8, of after_hello "[''3'']"]
    by (rule conjunct1 [OF conjunct2])
  then show ?thesis
    by (simp only: answer prod.case append_Nil2)
qed

text \<open>
  When the division raises instead, the frame has set \<^verbatim>\<open>sid\<close> and \<^verbatim>\<open>upgrades\<close>
  and nothing more: no heartbeat object is created, nothing is sent, no thread is started,
  and the exception leaves \<^verbatim>\<open>received_event\<close>. With the reference division this is
  the OverflowError of every \<^verbatim>\<open>pingInterval\<close> of \<open>2 ^ 1024 * 1000\<close> or more.
\<close>

lemma handshake_interval_error:
  assumes "\<not> str_isdigit payload"
    and "full_event_parse (loads ev) payload = Inr data"
    and "json_get data ''sid'' = Inr s" and "truthy s"
    and "subscript data ''upgrades'' = Inr ups"
    and "subscript data ''pingInterval'' = Inr (JNum n)"
    and "truediv ev n 1000 = Inl e"
  shows "received_event ev st payload =
     (st\<lparr>sid := Some s, upgrades := ups\<rparr>,
      [Dispatch ''socket_raw_receive'' [AStr payload], Dispatch ''socket_response'' [AJson data]],
      Some e)"
proof -
  have s: "subscript data ''sid'' = Inr s"
    using assms(3,4) by (rule json_get_truthy_subscript)
  have "hello ev st data
          [Dispatch ''socket_raw_receive'' [AStr payload], Dispatch ''socket_response'' [AJson data]]
      = (st\<lparr>sid := Some s, upgrades := ups\<rparr>,
         [Dispatch ''socket_raw_receive'' [AStr payload], Dispatch ''socket_response'' [AJson data]],
         Some e)"
    using s assms(5,6,7) by (simp add: hello_def div_1000_def)
  then show ?thesis
    using assms(1,2,3,4) by (simp add: received_event_def)
qed

lemma ref_truediv_overflow:
  assumes "b \<noteq> 0" and "2 ^ 1024 * \<bar>b\<bar> \<le> \<bar>a\<bar>"
  shows "ref_truediv a b = Inl OverflowError"
proof -
  have "\<not> (b dvd a \<and> \<bar>a div b\<bar> \<le> 2 ^ 53)"
  proof
    assume h: "b dvd a \<and> \<bar>a div b\<bar> \<le> 2 ^ 53"
    then obtain k where k: "a = b * k" by (auto elim: dvdE)
    with assms(1) h have "\<bar>k\<bar> \<le> 2 ^ 53" by simp
    moreover have "2 ^ 1024 * \<bar>b\<bar> \<le> \<bar>k\<bar> * \<bar>b\<bar>"
      using assms(2) k by (simp add: abs_mult mult.commute)
    then have "(2::int) ^ 1024 \<le> \<bar>k\<bar>"
      using assms(1) by (simp add: mult_le_cancel_right)
    moreover have "(2::int) ^ 53 < 2 ^ 1024"
      by (rule power_strict_increasing) simp_all
    ultimately show False by linarith
  qed
  with assms show ?thesis
    by (simp only: ref_truediv_def if_False if_True simp_thms)
qed

section \<open>Member updates and unhandled event types\<close>

text \<open>
  C7 on the code, at an update with an empty field batch for the cached member
  \<^verbatim>\<open>u1\<close> of team \<^verbatim>\<open>t1\<close>. The raw update event is fired; then the loop over
  \<^verbatim>\<open>userInfo\<close> does not run, \<^verbatim>\<open>after\<close> is never bound, and the final
  \<^verbatim>\<open>dispatch("member_update", before, after)\<close> raises UnboundLocalError, which
  \<^verbatim>\<open>received_event\<close> wraps, reports as an \<^verbatim>\<open>error\<close> event and raises again. No typed
  update event is fired.
\<close>

theorem member_update_empty_batch:
  \<open>received_event quiet_env team_gateway
     ''42["TeamMemberUpdated", {"type": "TeamMemberUpdated", "teamId": "t1", "userId": "u1", "userInfo": {}}]''
   = (team_gateway,
      [Dispatch ''socket_raw_receive''
         [AStr ''42["TeamMemberUpdated", {"type": "TeamMemberUpdated", "teamId": "t1", "userId": "u1", "userInfo": {}}]''],
       Dispatch ''socket_response''
         [AJson (JObj [(''type'', JStr ''TeamMemberUpdated''),
                       (''data'', JObj [(''teamId'', JStr ''t1''), (''userId'', JStr ''u1''),
                                        (''userInfo'', JObj [])])])],
       Dispatch ''raw_member_update''
         [ARaw (JObj [(''teamId'', JStr ''t1''), (''userId'', JStr ''u1''), (''userInfo'', JObj [])])],
       Dispatch ''error'' [AErr (GuildedException (UnboundLocalError ''after''))]],
      Some (GuildedException (UnboundLocalError ''after'')))\<close>
  by (simp add: event_eval handler_eval)

text \<open>
  C8 on the code, at an event whose type is \<^verbatim>\<open>get\<close>. This names no event handler,
  but \<^verbatim>\<open>getattr(self, "get", None)\<close> finds the method \<^verbatim>\<open>get\<close> itself, and calling
  it with the payload alone is a TypeError, raised out of \<^verbatim>\<open>received_event\<close>.
\<close>

theorem unhandled_type_get_raises:
  \<open>received_event quiet_env team_gateway ''42["get", {"type": "get"}]''
   = (team_gateway,
      [Dispatch ''socket_raw_receive'' [AStr ''42["get", {"type": "get"}]''],
       Dispatch ''socket_response'' [AJson (JObj [(''type'', JStr ''get''), (''data'', JObj [])])]],
      Some TypeError)\<close>
  by (simp add: event_eval)

text \<open>
  For a type that names neither a handler nor one of \<^verbatim>\<open>get\<close>, \<^verbatim>\<open>client\<close>,
  \<^verbatim>\<open>_state\<close>, and that does not start with two underscores, the frame is ignored.
\<close>

lemma unhandled_type_ignored:
  assumes "name \<notin> set handler_names"
    and "name \<notin> {''get'', ''client'', ''_state''}"
    and "\<not> starts_with ''__'' name"
  shows "route_event ev st (JObj [(''type'', JStr name), (''data'', d)]) sofar = (st, sofar, None)"
proof -
  have "name \<noteq> ''__init__''"
    using assms(3) by (auto simp: starts_with_def)
  with assms show ?thesis
    by (simp add: route_event_def subscript_def parsers_get_def)
qed

section \<open>Rate limits and heartbeat stalls\<close>

lemmas http_eval = request_def Route_def BASE_def headers_get_def lower_def asyncio_sleep_def

text \<open>
  C2 on the code, at a 429 response with the header \<^verbatim>\<open>Retry-After: 2\<close> followed by
  a 200 response. The header value is the string \<^verbatim>\<open>"2"\<close>, which \<^verbatim>\<open>request\<close> passes to
  \<^verbatim>\<open>asyncio.sleep\<close> as it is: a TypeError reaches the caller, nothing is slept and the
  request is not submitted again.
\<close>

theorem retry_after_header_raises:
  "request (Route ''GET'' ''/me'' None) JNull
     [\<lparr>status = 429, headers = [(''Retry-After'', ''2'')], json_body = Inr (JObj [])\<rparr>,
      \<lparr>status = 200, headers = [], json_body = Inr (JObj [(''id'', JStr ''u1'')])\<rparr>]
   = ([Request ''GET'' ''https://www.guilded.gg/api/me'' JNull], Some (Inl TypeError))"
  by (simp add: http_eval)

text \<open>
  Without the header the request sleeps 5 seconds and is submitted again, unchanged.
\<close>

lemma rate_limited_without_header:
  "request (Route ''GET'' ''/me'' None) JNull
     [\<lparr>status = 429, headers = [], json_body = Inr (JObj [])\<rparr>,
      \<lparr>status = 200, headers = [], json_body = Inr (JObj [(''id'', JStr ''u1'')])\<rparr>]
   = ([Request ''GET'' ''https://www.guilded.gg/api/me'' JNull, Sleep 5,
       Request ''GET'' ''https://www.guilded.gg/api/me'' JNull],
      Some (Inr (Body (JObj [(''id'', JStr ''u1'')]))))"
  by (simp add: http_eval)

text \<open>
  The same for every 429 response with a non-empty \<^verbatim>\<open>Retry-After\<close> header.
\<close>

lemma retry_after_any_text_raises:
  assumes "status resp = 429" and "json_body resp = Inr data"
    and "headers_get (headers resp) ''Retry-After'' = Some v" and "v \<noteq> []"
  shows "perform rt kwargs (resp # later)
    = ([Request (rt_method rt) (rt_url rt) kwargs], Some (Inl TypeError))"
  using assms by (simp add: asyncio_sleep_def)

text \<open>
  C4 on the code. For every heartbeat object that \<^verbatim>\<open>__init__\<close> builds, when the
  first \<^verbatim>\<open>f.result(10)\<close> of a heartbeat times out, the handler of the timeout raises
  AttributeError (\<^verbatim>\<open>_main_thread_id\<close> was never set), the outer \<^verbatim>\<open>except\<close> calls
  \<^verbatim>\<open>stop()\<close>, and the thread leaves its loop. No warning is logged and the send is
  not waited for any longer.
\<close>

theorem heartbeat_timeout_stops_thread:
  "run (Heartbeater_init interval) frames (Beat (TimedOut # rs) # later)
   = ([LogDebug ''Started heartbeat thread'', LogDebug ''Sending heartbeat'', SendHeartbeat ''2'',
       StopCalled],
      stop (Heartbeater_init interval), Exited)"
  by (cases later) (simp_all add: run_def Heartbeater_init_def stop_def)

text \<open>
  Heartbeats whose send completes within the first wait keep the thread running.
\<close>

lemma heartbeat_completed_continues:
  "run (Heartbeater_init 25) frames [Beat [Completed], Beat [Completed]]
   = ([LogDebug ''Started heartbeat thread'', LogDebug ''Sending heartbeat'', SendHeartbeat ''2'',
       LogDebug ''Sending heartbeat'', SendHeartbeat ''2''],
      Heartbeater_init 25, Alive)"
  by (simp add: run_def Heartbeater_init_def stop_def)

section \<open>Latency\<close>

lemma add_to_member_cache_frame:
  "ws_heartbeater (fst (add_to_member_cache st m)) = ws_heartbeater st"
  "heap (fst (add_to_member_cache st m)) = heap st"
  "teams (fst (add_to_member_cache st m)) = teams st"
  by (simp_all add: add_to_member_cache_def Let_def split: sum.splits option.splits)

lemma assign_and_cache_heartbeater:
  "ws_heartbeater (fst (assign_and_cache st a name v)) = ws_heartbeater st"
  by (cases a) (simp_all add: assign_and_cache_def add_to_member_cache_frame)

lemma assign_and_cache_heartbeaterD:
  "assign_and_cache st a name v = (st', r) \<Longrightarrow> ws_heartbeater st' = ws_heartbeater st"
  using assign_and_cache_heartbeater [of st a name v] by simp

lemma apply_user_info_heartbeater:
  "ws_heartbeater (fst (apply_user_info st team data kvs a)) = ws_heartbeater st"
proof (induction kvs arbitrary: st a)
  case Nil
  then show ?case by simp
next
  case (Cons kv kvs)
  then show ?case
    by (auto split: sum.splits option.splits prod.splits dest: assign_and_cache_heartbeaterD)
qed

lemma roles_loop_heartbeater:
  "ws_heartbeater (fst (roles_loop st team xs acc)) = ws_heartbeater st"
proof (induction xs arbitrary: st acc)
  case Nil
  then show ?case by simp
next
  case (Cons x xs)
  then show ?case
    by (auto split: sum.splits option.splits prod.splits dest: assign_and_cache_heartbeaterD)
qed

lemma TeamXpSet_heartbeater: "ws_heartbeater (fst (TeamXpSet st data)) = ws_heartbeater st"
  by (auto simp: TeamXpSet_def split: sum.splits option.splits prod.splits
      dest: assign_and_cache_heartbeaterD)

lemma TeamMemberUpdated_heartbeater:
  "ws_heartbeater (fst (TeamMemberUpdated st data)) = ws_heartbeater st"
proof -
  have "ws_heartbeater st' = ws_heartbeater st"
    if "apply_user_info st team data kvs None = (st', r)" for team kvs st' r
    using apply_user_info_heartbeater [of st team data kvs None] that by simp
  then show ?thesis
    by (auto simp: TeamMemberUpdated_def Let_def split: sum.splits option.splits prod.splits)
qed

lemma teamRolesUpdates_heartbeater:
  "ws_heartbeater (fst (teamRolesUpdates st data)) = ws_heartbeater st"
proof -
  have "ws_heartbeater st' = ws_heartbeater st"
    if "roles_loop st team xs [] = (st', r)" for team xs st' r
    using roles_loop_heartbeater [of st team xs "[]"] that by simp
  then show ?thesis
    by (auto simp: teamRolesUpdates_def split: sum.splits option.splits prod.splits)
qed

lemma run_handler_heartbeater:
  assumes "\<And>name st d. ws_heartbeater (fst (other_handlers ev name st d)) = ws_heartbeater st"
  shows "ws_heartbeater (fst (run_handler ev name st data)) = ws_heartbeater st"
  using assms
  by (simp add: run_handler_def TeamXpSet_heartbeater TeamMemberUpdated_heartbeater
      teamRolesUpdates_heartbeater)

lemma route_event_heartbeater:
  assumes "\<And>name st d. ws_heartbeater (fst (other_handlers ev name st d)) = ws_heartbeater st"
  shows "ws_heartbeater (fst (route_event ev st data sofar)) = ws_heartbeater st"
proof -
  have "ws_heartbeater st' = ws_heartbeater st"
    if "run_handler ev name st d = (st', r)" for name d st' r
    using run_handler_heartbeater [OF assms, of name st d] that by simp
  then show ?thesis
    by (auto simp: route_event_def split: sum.splits option.splits prod.splits)
qed

lemma hello_latency:
  "latency st = Infinity \<Longrightarrow> latency (fst (hello ev st data sofar)) = Infinity"
  by (simp add: hello_def latency_def Heartbeater_init_def Let_def
      split: sum.splits option.splits)

lemma received_event_latency:
  assumes "\<And>name st d. ws_heartbeater (fst (other_handlers ev name st d)) = ws_heartbeater st"
    and "latency st = Infinity"
  shows "latency (fst (received_event ev st payload)) = Infinity"
proof -
  have "latency (fst (route_event ev st data sofar)) = Infinity" for data sofar
    using route_event_heartbeater [OF assms(1), of st data sofar] assms(2)
    by (simp add: latency_def)
  then show ?thesis
    using assms(2) by (simp add: received_event_def Let_def hello_latency split: sum.splits)
qed

lemma received_events_latency:
  assumes "\<And>name st d. ws_heartbeater (fst (other_handlers ev name st d)) = ws_heartbeater st"
    and "latency st = Infinity"
  shows "latency (fst (received_events ev st payloads)) = Infinity"
  using assms(2)
proof (induction payloads arbitrary: st)
  case Nil
  then show ?case by simp
next
  case (Cons p ps)
  have step: "latency (fst (received_event ev st p)) = Infinity"
    using assms(1) Cons.prems by (rule received_event_latency)
  show ?case
  proof (cases "received_event ev st p")
    case (fields st' effs r)
    with step have l: "latency st' = Infinity" by simp
    show ?thesis
    proof (cases r)
      case None
      with fields Cons.IH [OF l] show ?thesis
        by (auto split: prod.splits)
    next
      case (Some e)
      with fields l show ?thesis by simp
    qed
  qed
qed

lemma run_loop_latency: "hb_latency (fst (snd (run_loop h frames script))) = hb_latency h"
proof (induction script arbitrary: h)
  case Nil
  then show ?case by simp
next
  case (Cons t ts)
  have "hb_latency (fst (snd (run_loop (stop h) frames ts))) = hb_latency h"
    using Cons.IH [of "stop h"] by (simp add: stop_def)
  with Cons.IH [of h] show ?case
    by (auto simp: stop_def split: tick.splits prod.splits wait_end.splits)
qed

lemma heartbeat_thread_latency:
  "latency (fst (heartbeat_thread st frames script)) = latency st"
proof (cases "ws_heartbeater st")
  case None
  then show ?thesis by (simp add: heartbeat_thread_def)
next
  case (Some h)
  with run_loop_latency [of h frames script] show ?thesis
    by (auto simp: heartbeat_thread_def run_def latency_def split: prod.splits)
qed

text \<open>
  C5, amended. \<^verbatim>\<open>latency\<close> reads as the infinite sentinel in every state the code
  reaches: on a new connection, after any frame (the handshake creates the heartbeat
  object with \<^verbatim>\<open>latency = float("inf")\<close>, no handler assigns it), and after any run of
  the heartbeat thread (which never assigns it either). The handlers whose code is
  outside this development are assumed, as their source shows, not to touch
  \<^verbatim>\<open>_heartbeater\<close>.
\<close>

theorem latency_stays_unmeasured:
  assumes "\<And>name st d. ws_heartbeater (fst (other_handlers ev name st d)) = ws_heartbeater st"
  shows "latency (new_gateway m) = Infinity
       \<and> (latency st = Infinity \<longrightarrow> latency (fst (received_event ev st payload)) = Infinity)
       \<and> (latency st = Infinity \<longrightarrow> latency (fst (heartbeat_thread st frames script)) = Infinity)
       \<and> latency (fst (received_events ev (new_gateway m) payloads)) = Infinity"
proof -
  have new: "latency (new_gateway m) = Infinity"
    by (simp add: latency_def new_gateway_def)
  show ?thesis
    using new received_event_latency [OF assms] received_events_latency [OF assms new]
    by (simp add: heartbeat_thread_latency)
qed

text \<open>
  C5 as stated fails in its second half. After the handshake, a heartbeat whose send
  completed and the server's answer \<^verbatim>\<open>3\<close> to it, the latency is still the infinite
  sentinel, not the duration of that round trip: the answer is a digits-only frame,
  which \<^verbatim>\<open>received_event\<close> drops, and nothing measures the time.
\<close>

theorem latency_after_round_trip_counterexample:
  \<open>fst (received_event quiet_env (new_gateway 1000)
          ''0{"sid":"abc123","upgrades":[],"pingInterval":25000}'') = after_hello
   \<and> heartbeat_thread after_hello (\<lambda>tid. None) [Beat [Completed]]
       = (after_hello, [LogDebug ''Started heartbeat thread'', LogDebug ''Sending heartbeat'',
                        SendHeartbeat ''2''], Alive)
   \<and> received_event quiet_env after_hello ''3'' = (after_hello, [], None)
   \<and> latency after_hello = Infinity\<close>
  by (simp add: event_eval new_gateway_def after_hello_def heartbeat_thread_def run_def
      Heartbeater_init_def latency_def)

text \<open>
  The invariant on the connection after its handshake: an answer frame and two
  completed heartbeats leave the latency infinite.
\<close>

theorem latency_stays_unmeasured_witness:
  "latency (fst (received_event quiet_env after_hello ''3'')) = Infinity
   \<and> latency (fst (heartbeat_thread after_hello (\<lambda>tid. None) [Beat [Completed], Beat [Completed]]))
       = Infinity"
proof -
  have quiet: "\<And>name st d. ws_heartbeater (fst (other_handlers quiet_env name st d)) = ws_heartbeater st"
    by (simp add: quiet_env_def)
  have start: "latency after_hello = Infinity"
    by (simp add: latency_def after_hello_def Heartbeater_init_def)
  show ?thesis
    using latency_stays_unmeasured [OF quiet, of 1000 after_hello "''3''"
        "\<lambda>tid. None" "[Beat [Completed], Beat [Completed]]" "[]"] start
    by simp
qed

section \<open>Member updates: before and after are one object\<close>

lemma map_of_update:
  "map_of (AList.update k v al) k' = (if k' = k then Some v else map_of al k')"
  by (simp add: AList.update_conv')

lemma list_all_update:
  "list_all Q al \<Longrightarrow> Q (k, v) \<Longrightarrow> list_all Q (AList.update k v al)"
  by (induction al) auto

lemma deref_setattr:
  "deref (setattr h a n v) c = (if c = a then AList.update n v (deref h a) else deref h c)"
  by (simp add: deref_def setattr_def map_of_update)

lemma getattr_setattr_other_name:
  "n' \<noteq> n \<Longrightarrow> getattr (setattr h a n v) x n' = getattr h x n'"
  by (cases x) (simp_all add: getattr_def deref_setattr map_of_update)

lemma getattr_setattr_other_addr:
  "c \<noteq> a \<Longrightarrow> getattr (setattr h a n v) (Ref c) n' = getattr h (Ref c) n'"
  by (simp add: getattr_def deref_setattr)

lemma get_member_unfold:
  "get_member st team mid =
     (case getattr (heap st) (Ref team) ''id'' of
        Inl e \<Rightarrow> Inl e
      | Inr tid \<Rightarrow>
          (case dict_key tid of
             Inl e \<Rightarrow> Inl e
           | Inr T \<Rightarrow>
               (case dict_key mid of
                  Inl e \<Rightarrow> Inl e
                | Inr K \<Rightarrow> Inr (member_at st T K))))"
  by (simp add: get_member_def get_team_member_http_def dict_get_def member_at_def
      split: sum.splits option.splits)

lemma member_at_heap [simp]: "member_at (st\<lparr>heap := h\<rparr>) T K = member_at st T K"
  by (simp add: member_at_def)

lemma member_at_add:
  assumes "add_to_member_cache st m = (st', r)"
  shows "member_at st' T K = member_at st T K \<or> member_at st' T K = Some m"
  using assms
  by (auto simp: add_to_member_cache_def Let_def member_at_def dict_set_def dict_get_def
      map_of_update split: sum.splits option.splits if_splits)

lemma keyed_member_at:
  assumes "keyed st" and "member_at st T K = Some b"
  shows "own_id (heap st) (K, b)"
proof -
  from assms(2) obtain ms where ms: "map_of (team_members st) T = Some ms" "map_of ms K = Some b"
    by (auto simp: member_at_def split: option.splits)
  then have "(T, ms) \<in> set (team_members st)" and "(K, b) \<in> set ms"
    by (auto dest: map_of_SomeD)
  with assms(1) show ?thesis
    by (auto simp: keyed_def list_all_iff)
qed

lemma keyed_same_member:
  assumes "keyed st" and "get_member st team mid = Inr (Some b)"
    and "getattr (heap st) (Ref b) ''id'' = Inr bid"
  shows "get_member st team bid = Inr (Some b)"
proof -
  from assms(2) obtain tid T K where
    t: "getattr (heap st) (Ref team) ''id'' = Inr tid" "dict_key tid = Inr T"
    and k: "dict_key mid = Inr K" and at: "member_at st T K = Some b"
    by (auto simp: get_member_unfold split: sum.splits)
  have "own_id (heap st) (K, b)"
    using assms(1) at by (rule keyed_member_at)
  with assms(3) have "dict_key bid = Inr K"
    by (simp add: own_id_def)
  with t at show ?thesis
    by (simp add: get_member_unfold)
qed

lemma add_to_member_cache_heap:
  "add_to_member_cache st m = (st', r) \<Longrightarrow> heap st' = heap st"
  using add_to_member_cache_frame(2) [of st m] by simp

lemma keyed_update_team:
  assumes "keyed st" and "list_all (own_id (heap st)) ms"
  shows "keyed (st\<lparr>team_members := AList.update T ms (team_members st)\<rparr>)"
proof -
  have "list_all (\<lambda>t. list_all (own_id (heap st)) (snd t)) (AList.update T ms (team_members st))"
    using assms by (intro list_all_update) (simp_all add: keyed_def)
  then show ?thesis by (simp add: keyed_def)
qed

lemma keyed_team_dict:
  assumes "keyed st"
  shows "list_all (own_id (heap st)) (case map_of (team_members st) T of None \<Rightarrow> [] | Some d \<Rightarrow> d)"
proof (cases "map_of (team_members st) T")
  case None
  then show ?thesis by simp
next
  case (Some d)
  then have "(T, d) \<in> set (team_members st)" by (rule map_of_SomeD)
  with assms Some show ?thesis by (auto simp: keyed_def list_all_iff)
qed

lemma add_to_member_cache_keyed:
  assumes "keyed st" and "add_to_member_cache st m = (st', r)"
  shows "keyed st'"
proof (cases "member_team_id (heap st) m")
  case (Inl e)
  with assms show ?thesis by (simp add: add_to_member_cache_def)
next
  case tid: (Inr tid)
  show ?thesis
  proof (cases "dict_key tid")
    case (Inl e)
    with tid assms show ?thesis by (simp add: add_to_member_cache_def dict_get_def)
  next
    case T: (Inr T)
    let ?ms = "case map_of (team_members st) T of None \<Rightarrow> [] | Some d \<Rightarrow> d"
    let ?st1 = "st\<lparr>team_members := AList.update T ?ms (team_members st)\<rparr>"
    have ms: "list_all (own_id (heap st)) ?ms"
      using assms(1) by (rule keyed_team_dict)
    have k1: "keyed ?st1"
      using assms(1) ms by (rule keyed_update_team)
    show ?thesis
    proof (cases "getattr (heap st) (Ref m) ''id''")
      case (Inl e)
      with tid T assms(2) have "st' = ?st1"
        by (simp add: add_to_member_cache_def dict_get_def dict_set_def Let_def)
      with k1 show ?thesis by simp
    next
      case mid: (Inr mid)
      show ?thesis
      proof (cases "dict_key mid")
        case (Inl e)
        with tid T mid assms(2) have "st' = ?st1"
          by (simp add: add_to_member_cache_def dict_get_def dict_set_def Let_def)
        with k1 show ?thesis by simp
      next
        case K: (Inr K)
        have "own_id (heap st) (K, m)"
          using mid K by (simp add: own_id_def)
        with ms have "list_all (own_id (heap ?st1)) (AList.update K m ?ms)"
          by (simp add: list_all_update)
        with k1 have "keyed (?st1\<lparr>team_members :=
            AList.update T (AList.update K m ?ms) (team_members ?st1)\<rparr>)"
          by (rule keyed_update_team)
        moreover have "st' = ?st1\<lparr>team_members :=
            AList.update T (AList.update K m ?ms) (team_members ?st1)\<rparr>"
          using tid T mid K assms(2)
          by (simp add: add_to_member_cache_def dict_get_def dict_set_def Let_def)
        ultimately show ?thesis by simp
      qed
    qed
  qed
qed

lemma setattr_keyed:
  assumes "keyed st" and "name \<noteq> ''id''"
  shows "keyed (st\<lparr>heap := setattr (heap st) a name v\<rparr>)"
proof -
  have "own_id (setattr (heap st) a name v) p = own_id (heap st) p" for p
    using assms(2) by (simp add: own_id_def getattr_setattr_other_name)
  then have "own_id (setattr (heap st) a name v) = own_id (heap st)"
    by (rule ext)
  with assms(1) show ?thesis
    by (simp add: keyed_def)
qed

lemma assign_and_cache_keyed:
  assumes "keyed st" and "name \<noteq> ''id''" and "assign_and_cache st a name v = (st', r)"
  shows "keyed st'"
proof (cases a)
  case None
  with assms show ?thesis by (simp add: assign_and_cache_def)
next
  case (Some m)
  with assms(3) have "add_to_member_cache (st\<lparr>heap := setattr (heap st) m name (J v)\<rparr>) m = (st', r)"
    by (simp add: assign_and_cache_def)
  with setattr_keyed [OF assms(1,2)] show ?thesis
    by (rule add_to_member_cache_keyed)
qed

lemma assign_and_cache_heap:
  assumes "assign_and_cache st (Some m) name v = (st', r)"
  shows "heap st' = setattr (heap st) m name (J v)"
  using assms add_to_member_cache_heap [of "st\<lparr>heap := setattr (heap st) m name (J v)\<rparr>" m st' r]
  by (simp add: assign_and_cache_def)

lemma assign_and_cache_member_at:
  assumes "assign_and_cache st (Some m) name v = (st', r)" and "member_at st T K = Some m"
  shows "member_at st' T K = Some m"
  using assms member_at_add [of "st\<lparr>heap := setattr (heap st) m name (J v)\<rparr>" m st' r T K]
  by (auto simp: assign_and_cache_def)

lemma same_object_member_update [simp]: "same_object h (member_update h a a)"
  by (simp add: same_object_def member_update_def)

lemma TeamXpSet_shape_case:
  "case TeamXpSet st data of (st', effs, r) \<Rightarrow>
     effs = [] \<or>
     (\<exists>team uid before bid after xp.
        get_member st team (J uid) = Inr (Some before)
        \<and> getattr (heap st) (Ref before) ''id'' = Inr bid
        \<and> get_member st team bid = Inr (Some after)
        \<and> subscript data ''amount'' = Inr xp
        \<and> assign_and_cache st (Some after) ''xp'' xp = (st', None)
        \<and> effs = [member_update (heap st') before after])"
  unfolding TeamXpSet_def
  by (auto split: sum.split option.split prod.split) blast+

lemma TeamXpSet_shape:
  assumes "TeamXpSet st data = (st', effs, r)"
  shows "effs = [] \<or>
     (\<exists>team uid before bid after xp.
        get_member st team (J uid) = Inr (Some before)
        \<and> getattr (heap st) (Ref before) ''id'' = Inr bid
        \<and> get_member st team bid = Inr (Some after)
        \<and> subscript data ''amount'' = Inr xp
        \<and> assign_and_cache st (Some after) ''xp'' xp = (st', None)
        \<and> effs = [member_update (heap st') before after])"
  using TeamXpSet_shape_case [where st = st and data = data] assms by simp

lemma TeamXpSet_same:
  assumes "keyed st" and "TeamXpSet st data = (st', effs, r)"
  shows "effs = [] \<or>
     (\<exists>a xp. subscript data ''amount'' = Inr xp \<and> effs = [member_update (heap st') a a]
        \<and> map_of (deref (heap st') a) ''xp'' = Some (J xp))"
  using TeamXpSet_shape [OF assms(2)]
proof (elim disjE exE conjE)
  assume "effs = []"
  then show ?thesis by simp
next
  fix team uid before bid after xp
  assume found: "get_member st team (J uid) = Inr (Some before)"
    and bid: "getattr (heap st) (Ref before) ''id'' = Inr bid"
    and again: "get_member st team bid = Inr (Some after)"
    and xp: "subscript data ''amount'' = Inr xp"
    and ac: "assign_and_cache st (Some after) ''xp'' xp = (st', None)"
    and effs: "effs = [member_update (heap st') before after]"
  have "get_member st team bid = Inr (Some before)"
    using assms(1) found bid by (rule keyed_same_member)
  with again have same: "after = before" by simp
  have "heap st' = setattr (heap st) after ''xp'' (J xp)"
    using ac by (rule assign_and_cache_heap)
  then have "map_of (deref (heap st') after) ''xp'' = Some (J xp)"
    by (simp add: deref_setattr map_of_update)
  with xp effs same show ?thesis by blast
qed

lemma roles_loop_step_case:
  "case roles_loop st team (x # xs) acc of (st', res) \<Rightarrow>
     (\<exists>e. res = Inl e)
     \<or> roles_loop st team xs acc = (st', res)
     \<or> (\<exists>uid b bid after role_ids st1.
          get_member st team (J uid) = Inr (Some b)
          \<and> getattr (heap st) (Ref b) ''id'' = Inr bid
          \<and> get_member st team bid = Inr (Some after)
          \<and> subscript x ''roleIds'' = Inr role_ids
          \<and> assign_and_cache st (Some after) ''roles'' role_ids = (st1, None)
          \<and> roles_loop st1 team xs (acc @ [(b, after)]) = (st', res))"
  by (auto split: sum.split option.split prod.split)

lemma roles_loop_step:
  assumes "roles_loop st team (x # xs) acc = (st', Inr pairs)"
  shows "roles_loop st team xs acc = (st', Inr pairs)
     \<or> (\<exists>uid b bid after role_ids st1.
          get_member st team (J uid) = Inr (Some b)
          \<and> getattr (heap st) (Ref b) ''id'' = Inr bid
          \<and> get_member st team bid = Inr (Some after)
          \<and> subscript x ''roleIds'' = Inr role_ids
          \<and> assign_and_cache st (Some after) ''roles'' role_ids = (st1, None)
          \<and> roles_loop st1 team xs (acc @ [(b, after)]) = (st', Inr pairs))"
  using roles_loop_step_case [where st = st and team = team and x = x and xs = xs and acc = acc]
  by (simp only: assms prod.case) blast

lemma roles_loop_pairs:
  assumes "keyed st"
    and "list_all (\<lambda>p. fst p = snd p
            \<and> (\<exists>r\<in>set rs. map_of (deref (heap st) (snd p)) ''roles'' = Some (J r))) acc"
    and "\<forall>u\<in>set xs. \<forall>r. subscript u ''roleIds'' = Inr r \<longrightarrow> r \<in> set rs"
    and "roles_loop st team xs acc = (st', Inr pairs)"
  shows "list_all (\<lambda>p. fst p = snd p
            \<and> (\<exists>r\<in>set rs. map_of (deref (heap st') (snd p)) ''roles'' = Some (J r))) pairs"
  using assms
proof (induction xs arbitrary: st acc)
  case Nil
  then show ?case by simp
next
  case (Cons x xs)
  have later: "\<forall>u\<in>set xs. \<forall>r. subscript u ''roleIds'' = Inr r \<longrightarrow> r \<in> set rs"
    using Cons.prems(3) by simp
  from roles_loop_step [OF Cons.prems(4)] show ?case
  proof (elim disjE exE conjE)
    assume "roles_loop st team xs acc = (st', Inr pairs)"
    with Cons.prems(1,2) later show ?thesis by (rule Cons.IH)
  next
    fix uid b bid after role_ids st1
    assume found: "get_member st team (J uid) = Inr (Some b)"
      and bid: "getattr (heap st) (Ref b) ''id'' = Inr bid"
      and again: "get_member st team bid = Inr (Some after)"
      and roles: "subscript x ''roleIds'' = Inr role_ids"
      and ac: "assign_and_cache st (Some after) ''roles'' role_ids = (st1, None)"
      and rest: "roles_loop st1 team xs (acc @ [(b, after)]) = (st', Inr pairs)"
    have "get_member st team bid = Inr (Some b)"
      using Cons.prems(1) found bid by (rule keyed_same_member)
    with again have same: "after = b" by simp
    have k1: "keyed st1"
      using Cons.prems(1) _ ac by (rule assign_and_cache_keyed) simp
    have h1: "heap st1 = setattr (heap st) after ''roles'' (J role_ids)"
      using ac by (rule assign_and_cache_heap)
    have new: "role_ids \<in> set rs"
      using Cons.prems(3) roles by simp
    have acc': "list_all (\<lambda>p. fst p = snd p
            \<and> (\<exists>r\<in>set rs. map_of (deref (heap st1) (snd p)) ''roles'' = Some (J r)))
          (acc @ [(b, after)])"
      using Cons.prems(2) same new
      by (auto simp: list_all_iff h1 deref_setattr map_of_update)
    from k1 acc' later rest show ?thesis by (rule Cons.IH)
  qed
qed

lemma teamRolesUpdates_shape_case:
  "case teamRolesUpdates st data of (st', effs, r) \<Rightarrow> effs = [] \<or>
     (\<exists>team batch xs pairs.
        subscript data ''memberRoleIds'' = Inr batch \<and> iterate batch = Inr xs
        \<and> roles_loop st team xs [] = (st', Inr pairs)
        \<and> effs = map (\<lambda>p. member_update (heap st') (fst p) (snd p)) pairs)"
  unfolding teamRolesUpdates_def
  by (auto split: sum.split option.split prod.split)

lemma teamRolesUpdates_shape:
  assumes "teamRolesUpdates st data = (st', effs, r)"
  shows "effs = [] \<or>
     (\<exists>team batch xs pairs.
        subscript data ''memberRoleIds'' = Inr batch \<and> iterate batch = Inr xs
        \<and> roles_loop st team xs [] = (st', Inr pairs)
        \<and> effs = map (\<lambda>p. member_update (heap st') (fst p) (snd p)) pairs)"
  using teamRolesUpdates_shape_case [where st = st and data = data] assms by simp

lemma shows_roles_member_update:
  "shows_roles h rs (member_update h a a) \<longleftrightarrow> (\<exists>r\<in>set rs. map_of (deref h a) ''roles'' = Some (J r))"
  by (simp add: shows_roles_def member_update_def list_ex_iff)

lemma teamRolesUpdates_same:
  assumes "keyed st" and "teamRolesUpdates st data = (st', effs, r)"
  shows "list_all (same_object (heap st')) effs
       \<and> list_all (shows_roles (heap st') (batch_roles data)) effs"
  using teamRolesUpdates_shape [OF assms(2)]
proof (elim disjE exE conjE)
  assume "effs = []"
  then show ?thesis by simp
next
  fix team batch xs pairs
  assume batch: "subscript data ''memberRoleIds'' = Inr batch" and xs: "iterate batch = Inr xs"
    and loop: "roles_loop st team xs [] = (st', Inr pairs)"
    and effs: "effs = map (\<lambda>p. member_update (heap st') (fst p) (snd p)) pairs"
  have rs: "\<forall>u\<in>set xs. \<forall>r. subscript u ''roleIds'' = Inr r \<longrightarrow> r \<in> set (batch_roles data)"
    using batch xs by (force simp: batch_roles_def)
  have "list_all (\<lambda>p. fst p = snd p
      \<and> (\<exists>r\<in>set (batch_roles data). map_of (deref (heap st') (snd p)) ''roles'' = Some (J r))) pairs"
    using assms(1) _ rs loop by (rule roles_loop_pairs) simp
  with effs show ?thesis
    by (auto simp: list_all_iff shows_roles_member_update)
qed

lemma apply_fields_Cons:
  "apply_fields (kv # kvs) obj = apply_fields kvs (AList.update (fst kv) (J (snd kv)) obj)"
  by (simp add: apply_fields_def)

lemma apply_user_info_found:
  assumes "getattr (heap st) (Ref team) ''id'' = Inr tid" and "dict_key tid = Inr T"
    and "subscript data ''userId'' = Inr uid" and "dict_key (J uid) = Inr K"
    and "member_at st T K = Some a" and "a \<noteq> team"
    and "aft = None \<or> aft = Some a"
    and "apply_user_info st team data kvs aft = (st', Inr r)"
  shows "(r = None \<or> r = Some a) \<and> deref (heap st') a = apply_fields kvs (deref (heap st) a)"
  using assms(1,5,7,8)
proof (induction kvs arbitrary: st aft)
  case Nil
  then show ?case by (auto simp: apply_fields_def)
next
  case (Cons kv kvs)
  have found: "get_member st team (J uid) = Inr (Some a)"
    using Cons.prems(1,2) assms(2,4) by (simp add: get_member_unfold)
  have plain: "\<not> starts_with ''__'' (fst kv)"
    using found assms(3) Cons.prems(4) by (auto split: if_splits)
  obtain st1 e where ac: "assign_and_cache st (Some a) (fst kv) (snd kv) = (st1, e)"
    by (cases "assign_and_cache st (Some a) (fst kv) (snd kv)")
  show ?case
  proof (cases e)
    case (Some err)
    with found plain ac assms(3) Cons.prems(4) show ?thesis by simp
  next
    case None
    have h1: "heap st1 = setattr (heap st) a (fst kv) (J (snd kv))"
      using ac None by (simp add: assign_and_cache_heap)
    have t1: "getattr (heap st1) (Ref team) ''id'' = Inr tid"
      using Cons.prems(1) assms(6) by (simp add: h1 getattr_setattr_other_addr)
    have m1: "member_at st1 T K = Some a"
      using ac Cons.prems(2) by (rule assign_and_cache_member_at)
    have "apply_user_info st1 team data kvs (Some a) = (st', Inr r)"
      using found plain ac None assms(3) Cons.prems(4) by simp
    then have "(r = None \<or> r = Some a)
        \<and> deref (heap st') a = apply_fields kvs (deref (heap st1) a)"
      by (intro Cons.IH [OF t1 m1, of "Some a"]) simp_all
    then show ?thesis
      by (simp add: h1 deref_setattr apply_fields_Cons)
  qed
qed

lemma member_at_member_addrs:
  assumes "member_at st T K = Some a"
  shows "a \<in> set (member_addrs st)"
proof -
  from assms obtain ms where ms: "map_of (team_members st) T = Some ms" "map_of ms K = Some a"
    by (auto simp: member_at_def split: option.splits)
  then have "(T, ms) \<in> set (team_members st)" and "(K, a) \<in> set ms"
    by (auto dest: map_of_SomeD)
  then show ?thesis
    by (force simp: member_addrs_def)
qed

lemma get_team_teams:
  assumes "get_team st team_id = Inr (Some team)"
  shows "team \<in> snd ` set (teams st)"
proof -
  from assms obtain k where "map_of (teams st) k = Some team"
    by (auto simp: get_team_def get_team_http_def dict_get_def split: sum.splits)
  then have "(k, team) \<in> set (teams st)" by (rule map_of_SomeD)
  then show ?thesis by force
qed

lemma TeamMemberUpdated_shape_case:
  "case TeamMemberUpdated st data of (st', effs, r) \<Rightarrow>
     effs = [Dispatch ''raw_member_update'' [ARaw data]] \<or>
     (\<exists>team_id team uid before ui kvs after.
        get_team st team_id = Inr (Some team)
        \<and> subscript data ''userId'' = Inr uid
        \<and> get_member st team (J uid) = Inr (Some before)
        \<and> subscript data ''userInfo'' = Inr ui \<and> items ui = Inr kvs
        \<and> apply_user_info st team data kvs None = (st', Inr (Some after))
        \<and> effs = [Dispatch ''raw_member_update'' [ARaw data], member_update (heap st') before after])"
  unfolding TeamMemberUpdated_def Let_def
  by (auto split: sum.split option.split prod.split)

lemma TeamMemberUpdated_shape:
  assumes "TeamMemberUpdated st data = (st', effs, r)"
  shows "effs = [Dispatch ''raw_member_update'' [ARaw data]] \<or>
     (\<exists>team_id team uid before ui kvs after.
        get_team st team_id = Inr (Some team)
        \<and> subscript data ''userId'' = Inr uid
        \<and> get_member st team (J uid) = Inr (Some before)
        \<and> subscript data ''userInfo'' = Inr ui \<and> items ui = Inr kvs
        \<and> apply_user_info st team data kvs None = (st', Inr (Some after))
        \<and> effs = [Dispatch ''raw_member_update'' [ARaw data], member_update (heap st') before after])"
  using TeamMemberUpdated_shape_case [where st = st and data = data] assms by simp

lemma TeamMemberUpdated_same:
  assumes "separate st" and "TeamMemberUpdated st data = (st', effs, r)"
  shows "effs = [Dispatch ''raw_member_update'' [ARaw data]] \<or>
     (\<exists>a ui kvs. subscript data ''userInfo'' = Inr ui \<and> items ui = Inr kvs
        \<and> effs = [Dispatch ''raw_member_update'' [ARaw data], member_update (heap st') a a]
        \<and> deref (heap st') a = apply_fields kvs (deref (heap st) a))"
  using TeamMemberUpdated_shape [OF assms(2)]
proof (elim disjE exE conjE)
  assume "effs = [Dispatch ''raw_member_update'' [ARaw data]]"
  then show ?thesis by simp
next
  fix team_id team uid before ui kvs after
  assume team: "get_team st team_id = Inr (Some team)"
    and uid: "subscript data ''userId'' = Inr uid"
    and found: "get_member st team (J uid) = Inr (Some before)"
    and ui: "subscript data ''userInfo'' = Inr ui" and kvs: "items ui = Inr kvs"
    and loop: "apply_user_info st team data kvs None = (st', Inr (Some after))"
    and effs: "effs = [Dispatch ''raw_member_update'' [ARaw data], member_update (heap st') before after]"
  from found obtain tid T K where
    t: "getattr (heap st) (Ref team) ''id'' = Inr tid" "dict_key tid = Inr T"
    and k: "dict_key (J uid) = Inr K" and at: "member_at st T K = Some before"
    by (auto simp: get_member_unfold split: sum.splits)
  have "team \<in> snd ` set (teams st)"
    using team by (rule get_team_teams)
  moreover have "before \<in> set (member_addrs st)"
    using at by (rule member_at_member_addrs)
  ultimately have ne: "before \<noteq> team"
    using assms(1) by (auto simp: separate_def list_all_iff)
  have "(Some after = None \<or> Some after = Some before)
      \<and> deref (heap st') before = apply_fields kvs (deref (heap st) before)"
    using t(1) t(2) uid k at ne _ loop by (rule apply_user_info_found) simp
  with effs ui kvs show ?thesis
    by auto
qed

text \<open>
  C10 as stated fails: the two lookups need not return one object. The connection
  starts with team \<^verbatim>\<open>t1\<close> and its members \<^verbatim>\<open>u1\<close> (address 1, xp 3) and \<^verbatim>\<open>u3\<close>
  (address 2, xp 5), each cached under its id. Two \<^verbatim>\<open>TeamMemberUpdated\<close> frames assign
  the id \<^verbatim>\<open>ux\<close> first to \<^verbatim>\<open>u1\<close>, then to \<^verbatim>\<open>u3\<close>, which takes the cache entry
  \<^verbatim>\<open>ux\<close>. A \<^verbatim>\<open>TeamXpSet\<close> frame for \<^verbatim>\<open>u1\<close> then looks up \<^verbatim>\<open>before\<close> under
  \<^verbatim>\<open>u1\<close> (address 1) and \<^verbatim>\<open>after\<close> under \<^verbatim>\<open>before.id\<close>, which is \<^verbatim>\<open>ux\<close>
  (address 2): the event it dispatches, the last of the three frames, carries two
  objects, and \<^verbatim>\<open>before\<close> still shows xp 3 while \<^verbatim>\<open>after\<close> shows xp 12.
\<close>

theorem member_update_two_objects_counterexample:
  \<open>last (fst (snd (received_events quiet_env two_member_gateway
     [''42["TeamMemberUpdated", {"type": "TeamMemberUpdated", "teamId": "t1", "userId": "u1", "userInfo": {"id": "ux"}}]'',
      ''42["TeamMemberUpdated", {"type": "TeamMemberUpdated", "teamId": "t1", "userId": "u3", "userInfo": {"id": "ux"}}]'',
      ''42["TeamXpSet", {"type": "TeamXpSet", "teamId": "t1", "userIds": ["u1"], "amount": 12}]''])))
   = Dispatch ''member_update''
       [ARef 1 [(''id'', J (JStr ''ux'')), (''team'', Ref 0), (''xp'', J (JNum 3))],
        ARef 2 [(''id'', J (JStr ''ux'')), (''team'', Ref 0), (''xp'', J (JNum 12))]]\<close>
  by (simp add: event_eval handler_eval two_member_gateway_def)

text \<open>
  C10, amended. In a cache that is keyed by id and in which no team object is a member
  object, every \<^verbatim>\<open>member_update\<close> event that \<^verbatim>\<open>TeamXpSet\<close>, \<^verbatim>\<open>TeamMemberUpdated\<close>
  and \<^verbatim>\<open>teamRolesUpdates\<close> dispatch passes one and the same cached object as
  \<^verbatim>\<open>before\<close> and as \<^verbatim>\<open>after\<close>: the two lookups return the identical object, which
  was changed in place. The attributes seen through \<^verbatim>\<open>before\<close> are those of
  \<^verbatim>\<open>after\<close>, the ones the object has in the store the handler leaves, and they are the
  new ones: for \<^verbatim>\<open>TeamXpSet\<close> the \<^verbatim>\<open>xp\<close> is the new amount; for
  \<^verbatim>\<open>TeamMemberUpdated\<close> the object is the cached one with every field of the batch
  assigned, in order; for \<^verbatim>\<open>teamRolesUpdates\<close> the \<^verbatim>\<open>roles\<close> are a role list of the
  batch. The values from before the update cannot be read from the event.
\<close>

theorem member_update_before_is_after:
  assumes "keyed st" and "separate st"
    and "TeamXpSet st data1 = (st1, effs1, r1)"
    and "TeamMemberUpdated st data2 = (st2, effs2, r2)"
    and "teamRolesUpdates st data3 = (st3, effs3, r3)"
  shows "list_all (same_object (heap st1)) effs1
       \<and> (effs1 = [] \<or>
           (\<exists>a xp. subscript data1 ''amount'' = Inr xp \<and> effs1 = [member_update (heap st1) a a]
              \<and> map_of (deref (heap st1) a) ''xp'' = Some (J xp)))
       \<and> list_all (same_object (heap st2)) effs2
       \<and> (effs2 = [Dispatch ''raw_member_update'' [ARaw data2]] \<or>
           (\<exists>a ui kvs. subscript data2 ''userInfo'' = Inr ui \<and> items ui = Inr kvs
              \<and> effs2 = [Dispatch ''raw_member_update'' [ARaw data2], member_update (heap st2) a a]
              \<and> deref (heap st2) a = apply_fields kvs (deref (heap st) a)))
       \<and> list_all (same_object (heap st3)) effs3
       \<and> list_all (shows_roles (heap st3) (batch_roles data3)) effs3"
proof -
  have x: "effs1 = [] \<or>
     (\<exists>a xp. subscript data1 ''amount'' = Inr xp \<and> effs1 = [member_update (heap st1) a a]
        \<and> map_of (deref (heap st1) a) ''xp'' = Some (J xp))"
    using assms(1,3) by (rule TeamXpSet_same)
  then have x': "list_all (same_object (heap st1)) effs1"
    by auto
  have m: "effs2 = [Dispatch ''raw_member_update'' [ARaw data2]] \<or>
     (\<exists>a ui kvs. subscript data2 ''userInfo'' = Inr ui \<and> items ui = Inr kvs
        \<and> effs2 = [Dispatch ''raw_member_update'' [ARaw data2], member_update (heap st2) a a]
        \<and> deref (heap st2) a = apply_fields kvs (deref (heap st) a))"
    using assms(2,4) by (rule TeamMemberUpdated_same)
  have raw: "same_object (heap st2) (Dispatch ''raw_member_update'' [ARaw data2])"
    by (simp add: same_object_def)
  from m have m': "list_all (same_object (heap st2)) effs2"
    using raw by auto
  have r: "list_all (same_object (heap st3)) effs3
      \<and> list_all (shows_roles (heap st3) (batch_roles data3)) effs3"
    using assms(1,5) by (rule teamRolesUpdates_same)
  from x x' m m' r show ?thesis
    by (simp only: simp_thms)
qed

text \<open>
  The three handlers on the connection with team \<^verbatim>\<open>t1\<close> and member \<^verbatim>\<open>u1\<close> (xp 3):
  through \<^verbatim>\<open>before\<close> the events show xp 12, then xp 7 with the new nickname, and,
  for a batch that sets the roles of \<^verbatim>\<open>u1\<close> twice, the last roles in both events.
\<close>

theorem member_update_before_is_after_witness:
  "TeamXpSet team_gateway
     (JObj [(''teamId'', JStr ''t1''), (''userIds'', JArr [JStr ''u1'']), (''amount'', JNum 12)])
   = (team_gateway\<lparr>heap :=
        [(0, [(''id'', J (JStr ''t1''))]),
         (1, [(''id'', J (JStr ''u1'')), (''team'', Ref 0), (''xp'', J (JNum 12))])]\<rparr>,
      [Dispatch ''member_update''
         [ARef 1 [(''id'', J (JStr ''u1'')), (''team'', Ref 0), (''xp'', J (JNum 12))],
          ARef 1 [(''id'', J (JStr ''u1'')), (''team'', Ref 0), (''xp'', J (JNum 12))]]],
      None)
   \<and> list_all
        (same_object
          [(0, [(''id'', J (JStr ''t1''))]),
           (1, [(''id'', J (JStr ''u1'')), (''team'', Ref 0), (''xp'', J (JNum 12))])])
        [Dispatch ''member_update''
           [ARef 1 [(''id'', J (JStr ''u1'')), (''team'', Ref 0), (''xp'', J (JNum 12))],
            ARef 1 [(''id'', J (JStr ''u1'')), (''team'', Ref 0), (''xp'', J (JNum 12))]]]
   \<and> snd (TeamMemberUpdated team_gateway
        (JObj [(''teamId'', JStr ''t1''), (''userId'', JStr ''u1''),
               (''userInfo'', JObj [(''nickname'', JStr ''x''), (''xp'', JNum 7)])]))
     = ([Dispatch ''raw_member_update''
           [ARaw (JObj [(''teamId'', JStr ''t1''), (''userId'', JStr ''u1''),
                        (''userInfo'', JObj [(''nickname'', JStr ''x''), (''xp'', JNum 7)])])],
         Dispatch ''member_update''
           [ARef 1 [(''id'', J (JStr ''u1'')), (''team'', Ref 0), (''xp'', J (JNum 7)),
                    (''nickname'', J (JStr ''x''))],
            ARef 1 [(''id'', J (JStr ''u1'')), (''team'', Ref 0), (''xp'', J (JNum 7)),
                    (''nickname'', J (JStr ''x''))]]],
        None)
   \<and> snd (teamRolesUpdates team_gateway
        (JObj [(''teamId'', JStr ''t1''),
               (''memberRoleIds'',
                JArr [JObj [(''userId'', JStr ''u1''), (''roleIds'', JArr [JNum 1, JNum 2])],
                      JObj [(''userId'', JStr ''zz''), (''roleIds'', JArr [JNum 1])],
                      JObj [(''userId'', JStr ''u1''), (''roleIds'', JArr [JNum 3])]])]))
     = ([Dispatch ''member_update''
           [ARef 1 [(''id'', J (JStr ''u1'')), (''team'', Ref 0), (''xp'', J (JNum 3)),
                    (''roles'', J (JArr [JNum 3]))],
            ARef 1 [(''id'', J (JStr ''u1'')), (''team'', Ref 0), (''xp'', J (JNum 3)),
                    (''roles'', J (JArr [JNum 3]))]],
         Dispatch ''member_update''
           [ARef 1 [(''id'', J (JStr ''u1'')), (''team'', Ref 0), (''xp'', J (JNum 3)),
                    (''roles'', J (JArr [JNum 3]))],
            ARef 1 [(''id'', J (JStr ''u1'')), (''team'', Ref 0), (''xp'', J (JNum 3)),
                    (''roles'', J (JArr [JNum 3]))]]],
        None)"
proof -
  let ?d1 = "JObj [(''teamId'', JStr ''t1''), (''userIds'', JArr [JStr ''u1'']), (''amount'', JNum 12)]"
  let ?d2 = "JObj [(''teamId'', JStr ''t1''), (''userId'', JStr ''u1''),
               (''userInfo'', JObj [(''nickname'', JStr ''x''), (''xp'', JNum 7)])]"
  let ?d3 = "JObj [(''teamId'', JStr ''t1''),
               (''memberRoleIds'',
                JArr [JObj [(''userId'', JStr ''u1''), (''roleIds'', JArr [JNum 1, JNum 2])],
                      JObj [(''userId'', JStr ''zz''), (''roleIds'', JArr [JNum 1])],
                      JObj [(''userId'', JStr ''u1''), (''roleIds'', JArr [JNum 3])]])]"
  have k: "keyed team_gateway"
    by (simp add: keyed_def own_id_def handler_eval)
  have s: "separate team_gateway"
    by (simp add: separate_def member_addrs_def team_gateway_def)
  have e1: "TeamXpSet team_gateway ?d1
      = (team_gateway\<lparr>heap :=
           [(0, [(''id'', J (JStr ''t1''))]),
            (1, [(''id'', J (JStr ''u1'')), (''team'', Ref 0), (''xp'', J (JNum 12))])]\<rparr>,
         [Dispatch ''member_update''
            [ARef 1 [(''id'', J (JStr ''u1'')), (''team'', Ref 0), (''xp'', J (JNum 12))],
             ARef 1 [(''id'', J (JStr ''u1'')), (''team'', Ref 0), (''xp'', J (JNum 12))]]],
         None)"
    by (simp add: handler_eval json_get_def subscript_def)
  have e2: "TeamMemberUpdated team_gateway ?d2
      = (fst (TeamMemberUpdated team_gateway ?d2),
         fst (snd (TeamMemberUpdated team_gateway ?d2)),
         snd (snd (TeamMemberUpdated team_gateway ?d2)))"
    by simp
  have e3: "teamRolesUpdates team_gateway ?d3
      = (fst (teamRolesUpdates team_gateway ?d3),
         fst (snd (teamRolesUpdates team_gateway ?d3)),
         snd (snd (teamRolesUpdates team_gateway ?d3)))"
    by simp
  have v2: "snd (TeamMemberUpdated team_gateway ?d2)
     = ([Dispatch ''raw_member_update'' [ARaw ?d2],
         Dispatch ''member_update''
           [ARef 1 [(''id'', J (JStr ''u1'')), (''team'', Ref 0), (''xp'', J (JNum 7)),
                    (''nickname'', J (JStr ''x''))],
            ARef 1 [(''id'', J (JStr ''u1'')), (''team'', Ref 0), (''xp'', J (JNum 7)),
                    (''nickname'', J (JStr ''x''))]]],
        None)"
    by (simp add: handler_eval json_get_def subscript_def)
  have v3: "snd (teamRolesUpdates team_gateway ?d3)
     = ([Dispatch ''member_update''
           [ARef 1 [(''id'', J (JStr ''u1'')), (''team'', Ref 0), (''xp'', J (JNum 3)),
                    (''roles'', J (JArr [JNum 3]))],
            ARef 1 [(''id'', J (JStr ''u1'')), (''team'', Ref 0), (''xp'', J (JNum 3)),
                    (''roles'', J (JArr [JNum 3]))]],
         Dispatch ''member_update''
           [ARef 1 [(''id'', J (JStr ''u1'')), (''team'', Ref 0), (''xp'', J (JNum 3)),
                    (''roles'', J (JArr [JNum 3]))],
            ARef 1 [(''id'', J (JStr ''u1'')), (''team'', Ref 0), (''xp'', J (JNum 3)),
                    (''roles'', J (JArr [JNum 3]))]]],
        None)"
    by (simp add: handler_eval json_get_def subscript_def)
  have "list_all
        (same_object
          (heap (team_gateway\<lparr>heap :=
           [(0, [(''id'', J (JStr ''t1''))]),
            (1, [(''id'', J (JStr ''u1'')), (''team'', Ref 0), (''xp'', J (JNum 12))])]\<rparr>)))
        [Dispatch ''member_update''
           [ARef 1 [(''id'', J (JStr ''u1'')), (''team'', Ref 0), (''xp'', J (JNum 12))],
            ARef 1 [(''id'', J (JStr ''u1'')), (''team'', Ref 0), (''xp'', J (JNum 12))]]]"
    using member_update_before_is_after [OF k s e1 e2 e3] by blast
  then show ?thesis
    using e1 v2 v3 by simp
qed

end
